theory Spec2Isabelle
  imports Complex_Main
begin

section \<open>Python strings\<close>

text \<open>
  A Python \<open>str\<close> is modelled as a \<open>string\<close>: a list of characters, each read as the
  Unicode code point of the same number (0 to 255, the Latin-1 range). \<open>len\<close> is
  \<open>length\<close>. The character classes below are Python's on that range:
  \<open>str.isspace\<close> (used by \<open>str.strip\<close> and by \<open>\s\<close> in a \<open>re\<close> pattern over \<open>str\<close>),
  the decimal digits matched by \<open>\d\<close>, and \<open>str.lower\<close>.
\<close>

definition isspace :: "char \<Rightarrow> bool" where
  "isspace c = ((of_char c :: nat) \<in> {9, 10, 11, 12, 13, 28, 29, 30, 31, 32, 133, 160})"

definition isdigit :: "char \<Rightarrow> bool" where
  "isdigit c = (48 \<le> (of_char c :: nat) \<and> (of_char c :: nat) \<le> 57)"

definition in_range :: "char \<Rightarrow> char \<Rightarrow> char \<Rightarrow> bool" where
  "in_range lo hi c = ((of_char lo :: nat) \<le> of_char c \<and> (of_char c :: nat) \<le> of_char hi)"

definition lower_char :: "char \<Rightarrow> char" where
  "lower_char c =
     (let n = (of_char c :: nat)
      in if (65 \<le> n \<and> n \<le> 90) \<or> (192 \<le> n \<and> n \<le> 222 \<and> n \<noteq> 215)
         then char_of (n + 32) else c)"

definition lower :: "string \<Rightarrow> string" where
  "lower s = map lower_char s"

definition strip :: "string \<Rightarrow> string" where
  "strip s = rev (dropWhile isspace (rev (dropWhile isspace s)))"

definition startswith :: "string \<Rightarrow> string \<Rightarrow> bool" where
  "startswith s p = (take (length p) s = p)"

section \<open>The validator \<open>looks_wrong\<close>\<close>

definition invalid_patterns :: "string list" where
  "invalid_patterns =
     [''close'', ''reset'', ''click'', ''button'', ''submit'',
      ''search'', ''menu'', ''nav'', ''header'', ''footer'',
      ''green inventory'', ''loading'', ''please wait'']"

text \<open>\<open>re.search(r'[A-H]\d{2}[A-Z]', value)\<close>: the pattern at the head of the string, then
  at any later position.\<close>

fun ipc_match_here :: "string \<Rightarrow> bool" where
  "ipc_match_here (a # d1 # d2 # b # rest) =
     (in_range CHR ''A'' CHR ''H'' a \<and> isdigit d1 \<and> isdigit d2 \<and> in_range CHR ''A'' CHR ''Z'' b)"
| "ipc_match_here s = False"

fun ipc_search :: "string \<Rightarrow> bool" where
  "ipc_search [] = False"
| "ipc_search (c # cs) = (ipc_match_here (c # cs) \<or> ipc_search cs)"

definition looks_wrong :: "string \<Rightarrow> string \<Rightarrow> bool" where
  "looks_wrong val field_type =
     (if val = [] \<or> strip val = [] then True
      else let v = strip val in
        if lower v \<in> set invalid_patterns then True
        else if field_type = ''title'' then
          (if length v < 10 then True
           else if list_ex (startswith (lower v)) [''click'', ''close'', ''open'', ''select'']
             then True
           else False)
        else if field_type = ''ipc'' then
          (if \<not> ipc_search v then True else False)
        else if field_type = ''publication_number'' then
          (if \<not> startswith v ''WO'' then True else False)
        else if field_type = ''applicants'' then
          (if length v < 3 then True else False)
        else False)"

text \<open>The shape of a classification code as the specification words it: a letter, two
  digits, a letter, and nothing else (as in \<open>A61K\<close>). It is used only to compare the
  specification's wording with \<open>ipc_search\<close>, which is what the code runs.\<close>

definition isalpha_ascii :: "char \<Rightarrow> bool" where
  "isalpha_ascii c = (in_range CHR ''A'' CHR ''Z'' c \<or> in_range CHR ''a'' CHR ''z'' c)"

definition spec_code_shape :: "string \<Rightarrow> bool" where
  "spec_code_shape s =
     (case s of
        [a, d1, d2, b] \<Rightarrow> isalpha_ascii a \<and> isdigit d1 \<and> isdigit d2 \<and> isalpha_ascii b
      | _ \<Rightarrow> False)"

section \<open>Statistics\<close>

record WIPOStats =
  static_success :: int
  direct_success :: int
  interactive_success :: int
  failures :: int

definition fresh_stats :: WIPOStats where
  "fresh_stats = \<lparr>static_success = 0, direct_success = 0, interactive_success = 0, failures = 0\<rparr>"

text \<open>
  \<open>success_rate\<close> returns a Python \<open>float\<close>. Its two floating-point operations, the true
  division of two integers and the product with 100, each round the exact result to a
  double; the rounding is the parameter \<open>rnd\<close>. With \<open>rnd = id\<close> the arithmetic is exact.
\<close>

definition success_rate :: "(real \<Rightarrow> real) \<Rightarrow> WIPOStats \<Rightarrow> real" where
  "success_rate rnd s =
     (let total = static_success s + direct_success s + interactive_success s + failures s
      in if total = 0 then 0
         else rnd (rnd (of_int (total - failures s) / of_int total) * 100))"

text \<open>The number of attempts as the specification defines it: the three per-tier success
  counters plus the failures counter.\<close>

definition attempts :: "WIPOStats \<Rightarrow> int" where
  "attempts s = static_success s + direct_success s + interactive_success s + failures s"

text \<open>What rounding to the nearest double guarantees and the proofs use: it is monotone
  and leaves the small integers 0, 1, 15, 90 and 100 as they are.\<close>

definition rounding :: "(real \<Rightarrow> real) \<Rightarrow> bool" where
  "rounding rnd =
     (mono rnd \<and> rnd 0 = 0 \<and> rnd 1 = 1 \<and> rnd 15 = 15 \<and> rnd 90 = 90 \<and> rnd 100 = 100)"

section \<open>Documents and the semantic fallback\<close>

text \<open>
  The structural queries on a parsed document (\<open>_extract_field_with_label\<close>,
  \<open>_extract_list_field\<close>, \<open>_extract_abstract\<close>: BeautifulSoup lookups) and the Groq
  service are outside the model. A \<open>page\<close> holds what they return for one fetched
  document: the raw html, the value of each structural lookup, and the reply of the
  service to each field description.
\<close>

datatype groq_reply = GroqError | GroqContent string

record page =
  html :: string
  label_title :: string
  label_pub_num :: string
  list_applicants :: "string list"
  list_inventors :: "string list"
  label_ipc :: string
  label_cpc :: string
  label_filing_date :: string
  label_pub_date :: string
  abstract_text :: string
  groq_service :: "string \<Rightarrow> groq_reply"

definition groq_extract_field :: "page \<Rightarrow> string \<Rightarrow> string option \<Rightarrow> string option" where
  "groq_extract_field pg field_name groq_api_key =
     (case groq_api_key of
        None \<Rightarrow> None
      | Some k \<Rightarrow>
          if k = [] then None
          else (case groq_service pg field_name of
                  GroqError \<Rightarrow> None
                | GroqContent c \<Rightarrow> Some (strip c)))"

text \<open>\<open>re.search(r'WO[/\s]?\d{4}[/\s]?\d{6}', html)\<close>, returning \<open>group(0)\<close>.\<close>

definition opt_sep :: "string \<Rightarrow> string \<times> string" where
  "opt_sep s =
     (case s of
        [] \<Rightarrow> ([], [])
      | c # cs \<Rightarrow> if c = CHR ''/'' \<or> isspace c then ([c], cs) else ([], c # cs))"

definition wo_match_here :: "string \<Rightarrow> string option" where
  "wo_match_here s =
     (if startswith s ''WO'' then
        (let (sep1, r1) = opt_sep (drop 2 s);
             d4 = take 4 r1;
             (sep2, r2) = opt_sep (drop 4 r1);
             d6 = take 6 r2
         in if length d4 = 4 \<and> list_all isdigit d4 \<and> length d6 = 6 \<and> list_all isdigit d6
            then Some (''WO'' @ sep1 @ d4 @ sep2 @ d6) else None)
      else None)"

fun wo_search :: "string \<Rightarrow> string option" where
  "wo_search [] = None"
| "wo_search (c # cs) =
     (case wo_match_here (c # cs) of Some m \<Rightarrow> Some m | None \<Rightarrow> wo_search cs)"

text \<open>\<open>str.split(',')\<close>.\<close>

fun split_on :: "char \<Rightarrow> string \<Rightarrow> string list" where
  "split_on d [] = [[]]"
| "split_on d (c # cs) =
     (if c = d then [] # split_on d cs
      else (case split_on d cs of
              w # ws \<Rightarrow> (c # w) # ws
            | [] \<Rightarrow> [[c]]))"

record biblio =
  title :: string
  publication_number :: string
  applicants :: "string list"
  inventors :: "string list"
  ipc_codes :: string
  cpc_codes :: string
  filing_date :: string
  publication_date :: string
  abstract :: string

definition parse_title :: "string option \<Rightarrow> page \<Rightarrow> string" where
  "parse_title groq_api_key pg =
     (let title0 = label_title pg
      in if looks_wrong title0 ''title'' then
           (case groq_extract_field pg ''patent title'' groq_api_key of
              Some groq_title \<Rightarrow>
                if groq_title \<noteq> [] \<and> \<not> looks_wrong groq_title ''title'' then groq_title
                else title0
            | None \<Rightarrow> title0)
         else title0)"

definition parse_pub_num :: "page \<Rightarrow> string" where
  "parse_pub_num pg =
     (let pub_num = label_pub_num pg
      in if looks_wrong pub_num ''publication_number'' then
           (case wo_search (html pg) of
              Some m \<Rightarrow> filter (\<lambda>c. c \<noteq> CHR '' '') (filter (\<lambda>c. c \<noteq> CHR ''/'') m)
            | None \<Rightarrow> pub_num)
         else pub_num)"

definition parse_applicants :: "string option \<Rightarrow> page \<Rightarrow> string list" where
  "parse_applicants groq_api_key pg =
     (let applicants0 = list_applicants pg
      in if applicants0 = [] \<or> (length applicants0 = 1 \<and> looks_wrong (hd applicants0) ''applicants'')
         then
           (case groq_extract_field pg ''applicants (comma separated)'' groq_api_key of
              Some groq_apps \<Rightarrow>
                if groq_apps \<noteq> [] then map strip (split_on CHR '','' groq_apps)
                else applicants0
            | None \<Rightarrow> applicants0)
         else applicants0)"

definition parse_ipc :: "string option \<Rightarrow> page \<Rightarrow> string" where
  "parse_ipc groq_api_key pg =
     (let ipc = label_ipc pg
      in if looks_wrong ipc ''ipc'' then
           (case groq_extract_field pg ''IPC classification codes'' groq_api_key of
              Some groq_ipc \<Rightarrow>
                if groq_ipc \<noteq> [] \<and> \<not> looks_wrong groq_ipc ''ipc'' then groq_ipc else ipc
            | None \<Rightarrow> ipc)
         else ipc)"

definition parse_biblio_robust :: "string option \<Rightarrow> page \<Rightarrow> biblio" where
  "parse_biblio_robust groq_api_key pg =
     \<lparr>title = parse_title groq_api_key pg,
      publication_number = parse_pub_num pg,
      applicants = take 10 (parse_applicants groq_api_key pg),
      inventors = take 10 (list_inventors pg),
      ipc_codes = parse_ipc groq_api_key pg,
      cpc_codes = label_cpc pg,
      filing_date = label_filing_date pg,
      publication_date = label_pub_date pg,
      abstract = take 1000 (abstract_text pg)\<rparr>"

section \<open>The crawler and its environment\<close>

text \<open>
  Exceptions are values. \<open>WIPOExtractionError\<close> is the crawler's own exception class;
  \<open>OtherException\<close> stands for every other subclass of \<open>Exception\<close> (a transport error
  of httpx, a navigation timeout of Playwright, an error raised by the caller's
  callback, \<open>ZeroDivisionError\<close>).
\<close>

datatype exn = WIPOExtractionError string | OtherException string

record patent =
  wo_number :: string
  source_tag :: string
  extraction_method :: string
  biblio_data :: biblio

text \<open>
  The environment answers the crawler's requests. \<open>http_get\<close> is the GET of the detail
  url of an identifier: it raises, or returns a status code and a document.
  \<open>page_goto\<close> is the Playwright navigation to the same url: \<open>goto\<close> raises, or the
  wait for the container \<open>div.ps-patent-detail\<close> fails, or the rendered document is read.
  \<open>search_get\<close> is the GET of the result listing of a query.
\<close>

datatype http_result = HttpRaises | HttpResponse int page

datatype nav_result = GotoRaises | ContainerMissing | Rendered page

record element =
  elem_text :: string
  elem_href :: "string option"

text \<open>The listing as the three selector strategies of \<open>_get_wo_list_httpx\<close> see it.\<close>

record listing =
  by_title_class :: "element list"
  by_number_class :: "element list"
  by_doc_link :: "element list"

datatype search_result = SearchRaises | SearchResponse int listing

record world =
  http_get :: "string \<Rightarrow> http_result"
  page_goto :: "string \<Rightarrow> nav_result"
  search_get :: "string \<Rightarrow> search_result"

record crawler =
  use_playwright :: bool
  groq_api_key :: "string option"

text \<open>
  The state threaded through a run: the statistics, and the trace of the requests made
  for identifiers and of the calls of the progress callback, in the order they happen.
  The sleep between identifiers is not modelled.
\<close>

datatype event = Get string | Goto string | Progress int string

record run_state =
  stats :: WIPOStats
  trace :: "event list"

text \<open>The state a run starts from.\<close>

definition start_state :: run_state where
  "start_state = \<lparr>stats = fresh_stats, trace = []\<rparr>"

definition log_event :: "event \<Rightarrow> run_state \<Rightarrow> run_state" where
  "log_event e st = st\<lparr>trace := trace st @ [e]\<rparr>"

definition tier_of :: "event \<Rightarrow> nat" where
  "tier_of e = (case e of Get w \<Rightarrow> 1 | Goto w \<Rightarrow> 2 | Progress p m \<Rightarrow> 0)"

definition tier_events :: "string \<Rightarrow> event list \<Rightarrow> event list" where
  "tier_events wo evs = filter (\<lambda>e. e = Get wo \<or> e = Goto wo) evs"

text \<open>\<open>str(n)\<close> for an integer.\<close>

definition digit_char :: "nat \<Rightarrow> char" where
  "digit_char d = char_of (of_char CHR ''0'' + d)"

fun str_nat :: "nat \<Rightarrow> string" where
  "str_nat n = (if 10 \<le> n then str_nat (n div 10) @ [digit_char (n mod 10)] else [digit_char n])"

definition str_int :: "int \<Rightarrow> string" where
  "str_int i = (if 0 \<le> i then str_nat (nat i) else CHR ''-'' # str_nat (nat (- i)))"

definition title_invalid :: "biblio \<Rightarrow> bool" where
  "title_invalid b = (title b = [] \<or> looks_wrong (title b) ''title'')"

definition extract_static_httpx ::
  "crawler \<Rightarrow> world \<Rightarrow> string \<Rightarrow> run_state \<Rightarrow> (exn + patent) \<times> run_state" where
  "extract_static_httpx cr w wo st =
     (let st1 = log_event (Get wo) st
      in case http_get w wo of
           HttpRaises \<Rightarrow> (Inl (OtherException ''httpx''), st1)
         | HttpResponse status_code pg \<Rightarrow>
             if status_code \<noteq> 200
             then (Inl (WIPOExtractionError (''HTTP '' @ str_int status_code)), st1)
             else
               (let b = parse_biblio_robust (groq_api_key cr) pg
                in if title_invalid b
                   then (Inl (WIPOExtractionError ''Title extraction failed validation''), st1)
                   else (Inr \<lparr>wo_number = wo, source_tag = ''WIPO'',
                              extraction_method = ''static_httpx'', biblio_data = b\<rparr>, st1)))"

definition extract_direct_playwright ::
  "crawler \<Rightarrow> world \<Rightarrow> string \<Rightarrow> run_state \<Rightarrow> (exn + patent) \<times> run_state" where
  "extract_direct_playwright cr w wo st =
     (let st1 = log_event (Goto wo) st
      in case page_goto w wo of
           GotoRaises \<Rightarrow> (Inl (OtherException ''playwright''), st1)
         | ContainerMissing \<Rightarrow>
             (Inl (WIPOExtractionError ''Patent detail container not found''), st1)
         | Rendered pg \<Rightarrow>
             (let b = parse_biblio_robust (groq_api_key cr) pg
              in if title_invalid b
                 then (Inl (WIPOExtractionError ''Extraction validation failed''), st1)
                 else (Inr \<lparr>wo_number = wo, source_tag = ''WIPO'',
                            extraction_method = ''direct_playwright'', biblio_data = b\<rparr>, st1)))"

definition count_static :: "run_state \<Rightarrow> run_state" where
  "count_static st = st\<lparr>stats := (stats st)\<lparr>static_success := static_success (stats st) + 1\<rparr>\<rparr>"

definition count_direct :: "run_state \<Rightarrow> run_state" where
  "count_direct st = st\<lparr>stats := (stats st)\<lparr>direct_success := direct_success (stats st) + 1\<rparr>\<rparr>"

definition count_failure :: "run_state \<Rightarrow> run_state" where
  "count_failure st = st\<lparr>stats := (stats st)\<lparr>failures := failures (stats st) + 1\<rparr>\<rparr>"

definition all_tiers_failed :: "string \<Rightarrow> exn" where
  "all_tiers_failed wo = WIPOExtractionError (''All extraction tiers failed for '' @ wo)"

definition extract_patent_tiered ::
  "crawler \<Rightarrow> world \<Rightarrow> string \<Rightarrow> run_state \<Rightarrow> (exn + patent) \<times> run_state" where
  "extract_patent_tiered cr w wo st =
     (case extract_static_httpx cr w wo st of
        (Inr data, st1) \<Rightarrow> (Inr data, count_static st1)
      | (Inl (OtherException m), st1) \<Rightarrow> (Inl (OtherException m), st1)
      | (Inl (WIPOExtractionError m), st1) \<Rightarrow>
          if use_playwright cr then
            (case extract_direct_playwright cr w wo st1 of
               (Inr data, st2) \<Rightarrow> (Inr data, count_direct st2)
             | (Inl (OtherException m2), st2) \<Rightarrow> (Inl (OtherException m2), st2)
             | (Inl (WIPOExtractionError m2), st2) \<Rightarrow> (Inl (all_tiers_failed wo), st2))
          else (Inl (all_tiers_failed wo), st1))"

section \<open>The candidate listing\<close>

text \<open>\<open>re.search(r'docId=(WO\d+)', href)\<close>, returning \<open>group(1)\<close>.\<close>

definition docid_match_here :: "string \<Rightarrow> string option" where
  "docid_match_here s =
     (if startswith s ''docId=WO'' \<and> takeWhile isdigit (drop 8 s) \<noteq> []
      then Some (''WO'' @ takeWhile isdigit (drop 8 s)) else None)"

fun docid_search :: "string \<Rightarrow> string option" where
  "docid_search [] = None"
| "docid_search (c # cs) =
     (case docid_match_here (c # cs) of Some g \<Rightarrow> Some g | None \<Rightarrow> docid_search cs)"

text \<open>\<open>list(dict.fromkeys(xs))\<close>: a key is inserted when it is first seen, and a dict
  keeps its keys in insertion order.\<close>

definition fromkeys_step :: "'a list \<Rightarrow> 'a \<Rightarrow> 'a list" where
  "fromkeys_step keys x = (if x \<in> set keys then keys else keys @ [x])"

definition dict_fromkeys :: "'a list \<Rightarrow> 'a list" where
  "dict_fromkeys xs = foldl fromkeys_step [] xs"

text \<open>The slice \<open>xs[:m]\<close>, for a negative \<open>m\<close> too.\<close>

definition slice_to :: "'a list \<Rightarrow> int \<Rightarrow> 'a list" where
  "slice_to xs m = (if m < 0 then take (nat (int (length xs) + m)) xs else take (nat m) xs)"

definition is_separator :: "char \<Rightarrow> bool" where
  "is_separator c = (c = CHR ''/'' \<or> isspace c \<or> c = CHR ''-'')"

definition wo_elements :: "listing \<Rightarrow> element list" where
  "wo_elements l =
     (if by_title_class l \<noteq> [] then by_title_class l
      else if by_number_class l \<noteq> [] then by_number_class l
      else by_doc_link l)"

definition wo_of_element :: "element \<Rightarrow> string option" where
  "wo_of_element e =
     (let wo_text0 = strip (elem_text e);
          wo_text =
            (if wo_text0 = [] then
               (case elem_href e of
                  None \<Rightarrow> wo_text0
                | Some h \<Rightarrow>
                    if h = [] then wo_text0
                    else (case docid_search h of Some g \<Rightarrow> g | None \<Rightarrow> wo_text0))
             else wo_text0);
          wo_clean = filter (\<lambda>c. \<not> is_separator c) wo_text
      in if wo_clean \<noteq> [] \<and> startswith wo_clean ''WO'' then Some wo_clean else None)"

fun collect_wo_numbers :: "element list \<Rightarrow> string list \<Rightarrow> string list" where
  "collect_wo_numbers [] wo_numbers = wo_numbers"
| "collect_wo_numbers (e # es) wo_numbers =
     (case wo_of_element e of
        Some wo_clean \<Rightarrow> collect_wo_numbers es (wo_numbers @ [wo_clean])
      | None \<Rightarrow> collect_wo_numbers es wo_numbers)"

definition get_wo_list_httpx :: "world \<Rightarrow> string \<Rightarrow> string list" where
  "get_wo_list_httpx w query =
     (case search_get w query of
        SearchRaises \<Rightarrow> []
      | SearchResponse status_code l \<Rightarrow>
          if status_code \<noteq> 200 then []
          else dict_fromkeys (collect_wo_numbers (wo_elements l) []))"

text \<open>The lister of the refactored pipeline (\<open>search_wipo(query, limit)\<close>): the request
  raises, or \<open>raise_for_status\<close> raises, or the \<open>href\<close>s of the anchors selected by
  \<open>a[href*='docId=WO']\<close> are read in document order.\<close>

datatype anchors_result = RequestRaises | StatusRaises | Anchors "string list"

fun collect_doc_ids :: "string list \<Rightarrow> string list \<Rightarrow> string list" where
  "collect_doc_ids [] wos = wos"
| "collect_doc_ids (h # hs) wos =
     (case docid_search h of
        Some g \<Rightarrow> collect_doc_ids hs (wos @ [g])
      | None \<Rightarrow> collect_doc_ids hs wos)"

definition list_candidates :: "anchors_result \<Rightarrow> int \<Rightarrow> exn + string list" where
  "list_candidates r limit =
     (case r of
        RequestRaises \<Rightarrow> Inl (OtherException ''httpx'')
      | StatusRaises \<Rightarrow> Inl (OtherException ''HTTPStatusError'')
      | Anchors hrefs \<Rightarrow> Inr (slice_to (dict_fromkeys (collect_doc_ids hrefs [])) limit))"

text \<open>The position at which a value is first seen in a list.\<close>

definition first_index :: "'a list \<Rightarrow> 'a \<Rightarrow> nat" where
  "first_index xs x = length (takeWhile (\<lambda>y. y \<noteq> x) xs)"

text \<open>What the specification asks of a candidate list: each identifier is normalized
  (it starts with \<open>WO\<close> and holds no separator), and the identifiers stand in the order in
  which they are first seen among the tokens read from the listing.\<close>

definition normalized :: "string \<Rightarrow> bool" where
  "normalized wo = (startswith wo ''WO'' \<and> \<not> list_ex is_separator wo)"

definition first_seen_order :: "'a list \<Rightarrow> 'a list \<Rightarrow> bool" where
  "first_seen_order tokens ids =
     sorted_wrt (\<lambda>a b. first_index tokens a < first_index tokens b) ids"

text \<open>A cut of the identifiers keeps the first ones: with an identifier it holds every
  token of the listing that is first seen before it.\<close>

definition keeps_first :: "'a list \<Rightarrow> 'a list \<Rightarrow> bool" where
  "keeps_first tokens ids =
     list_all (\<lambda>a. list_all (\<lambda>b. first_index tokens b < first_index tokens a \<longrightarrow> b \<in> set ids)
                 tokens) ids"

text \<open>The tokens \<open>_get_wo_list_httpx\<close> reads from a listing, in document order, before it
  removes the duplicates.\<close>

definition listing_tokens :: "listing \<Rightarrow> string list" where
  "listing_tokens l = List.map_filter wo_of_element (wo_elements l)"

text \<open>The identifiers the loop of \<open>search_wipo\<close> goes through: \<open>wo_list[:max_results]\<close>.\<close>

definition processed_candidates :: "world \<Rightarrow> string \<Rightarrow> int \<Rightarrow> string list" where
  "processed_candidates w query max_results = slice_to (get_wo_list_httpx w query) max_results"

section \<open>The run over the candidates\<close>

datatype cb_result = Returns | Raises

type_synonym callback = "int \<Rightarrow> string \<Rightarrow> cb_result"

text \<open>\<open>int(x)\<close> for a float: truncation towards zero.\<close>

definition py_int :: "real \<Rightarrow> int" where
  "py_int x = (if x < 0 then - \<lfloor>- x\<rfloor> else \<lfloor>x\<rfloor>)"

definition progress_percent :: "(real \<Rightarrow> real) \<Rightarrow> nat \<Rightarrow> int \<Rightarrow> int" where
  "progress_percent rnd idx n_total = 5 + py_int (rnd (rnd (real idx / real_of_int n_total) * 90))"

definition progress_message :: "nat \<Rightarrow> int \<Rightarrow> string" where
  "progress_message idx n_total = ''Processing '' @ str_nat idx @ ''/'' @ str_int n_total"

text \<open>The first statement of the loop's \<open>try\<close> block: the callback is called on every
  fifth identifier. \<open>None\<close> is a normal return.\<close>

definition report_progress ::
  "(real \<Rightarrow> real) \<Rightarrow> callback option \<Rightarrow> int \<Rightarrow> nat \<Rightarrow> run_state \<Rightarrow> exn option \<times> run_state" where
  "report_progress rnd cb n_total idx st =
     (case cb of
        None \<Rightarrow> (None, st)
      | Some f \<Rightarrow>
          if idx mod 5 = 0 then
            (if n_total = 0 then (Some (OtherException ''ZeroDivisionError''), st)
             else
               (let progress = progress_percent rnd idx n_total;
                    message = progress_message idx n_total;
                    st1 = log_event (Progress progress message) st
                in case f progress message of
                     Raises \<Rightarrow> (Some (OtherException ''callback''), st1)
                   | Returns \<Rightarrow> (None, st1)))
          else (None, st))"

definition try_body ::
  "(real \<Rightarrow> real) \<Rightarrow> crawler \<Rightarrow> world \<Rightarrow> callback option \<Rightarrow> int \<Rightarrow> nat \<Rightarrow> string \<Rightarrow>
     run_state \<Rightarrow> (exn + patent) \<times> run_state" where
  "try_body rnd cr w cb n_total idx wo st =
     (case report_progress rnd cb n_total idx st of
        (Some e, st1) \<Rightarrow> (Inl e, st1)
      | (None, st1) \<Rightarrow> extract_patent_tiered cr w wo st1)"

fun process_loop ::
  "(real \<Rightarrow> real) \<Rightarrow> crawler \<Rightarrow> world \<Rightarrow> callback option \<Rightarrow> int \<Rightarrow> (nat \<times> string) list \<Rightarrow>
     patent list \<Rightarrow> run_state \<Rightarrow> patent list \<times> run_state" where
  "process_loop rnd cr w cb n_total [] patents_data st = (patents_data, st)"
| "process_loop rnd cr w cb n_total ((idx, wo) # rest) patents_data st =
     (case try_body rnd cr w cb n_total idx wo st of
        (Inr patent_data, st1) \<Rightarrow>
          process_loop rnd cr w cb n_total rest (patents_data @ [patent_data]) st1
      | (Inl e, st1) \<Rightarrow>
          process_loop rnd cr w cb n_total rest patents_data (count_failure st1))"

definition first_callback :: "callback option \<Rightarrow> run_state \<Rightarrow> exn option \<times> run_state" where
  "first_callback cb st =
     (case cb of
        None \<Rightarrow> (None, st)
      | Some f \<Rightarrow>
          (let st1 = log_event (Progress 5 ''Getting WO list...'') st
           in case f 5 ''Getting WO list...'' of
                Raises \<Rightarrow> (Some (OtherException ''callback''), st1)
              | Returns \<Rightarrow> (None, st1)))"

definition search_wipo ::
  "(real \<Rightarrow> real) \<Rightarrow> crawler \<Rightarrow> world \<Rightarrow> string \<Rightarrow> int \<Rightarrow> callback option \<Rightarrow> run_state \<Rightarrow>
     (exn + patent list) \<times> run_state" where
  "search_wipo rnd cr w query max_results cb st =
     (case first_callback cb st of
        (Some e, st0) \<Rightarrow> (Inl e, st0)
      | (None, st0) \<Rightarrow>
          (let wo_list = get_wo_list_httpx w query
           in if wo_list = [] then (Inr [], st0)
              else
                (let n_total = min (int (length wo_list)) max_results
                 in case process_loop rnd cr w cb n_total
                           (enumerate 1 (slice_to wo_list max_results)) [] st0 of
                      (patents_data, st1) \<Rightarrow> (Inr patents_data, st1))))"

section \<open>The first crawler's run\<close>

text \<open>
  \<open>WIPOCrawler.search_wipo\<close> drives one browser page. Its environment: whether the
  navigation to the result listing raises, the identifiers \<open>_extract_wo_numbers\<close> reads
  from the listing, and what \<open>_extract_patent_data\<close> returns for an identifier
  (\<open>None\<close> when it fails: it catches its own exceptions). This crawler keeps no
  statistics; the state is the trace of callback calls.
\<close>

record 'p browser =
  listing_goto_raises :: bool
  listed_wo_numbers :: "string list"
  extract_patent_data :: "string \<Rightarrow> 'p option"

definition progress_percent_v1 :: "(real \<Rightarrow> real) \<Rightarrow> nat \<Rightarrow> int \<Rightarrow> int" where
  "progress_percent_v1 rnd idx n_total =
     5 + py_int (rnd (rnd (real idx / real_of_int n_total) * 15))"

definition progress_message_v1 :: "nat \<Rightarrow> int \<Rightarrow> string" where
  "progress_message_v1 idx n_total = ''Processing WO '' @ str_nat idx @ ''/'' @ str_int n_total"

definition report_progress_v1 ::
  "(real \<Rightarrow> real) \<Rightarrow> callback option \<Rightarrow> int \<Rightarrow> nat \<Rightarrow> event list \<Rightarrow> exn option \<times> event list" where
  "report_progress_v1 rnd cb n_total idx tr =
     (case cb of
        None \<Rightarrow> (None, tr)
      | Some f \<Rightarrow>
          if idx mod 10 = 0 then
            (if n_total = 0 then (Some (OtherException ''ZeroDivisionError''), tr)
             else
               (let progress = progress_percent_v1 rnd idx n_total;
                    message = progress_message_v1 idx n_total;
                    tr1 = tr @ [Progress progress message]
                in case f progress message of
                     Raises \<Rightarrow> (Some (OtherException ''callback''), tr1)
                   | Returns \<Rightarrow> (None, tr1)))
          else (None, tr))"

fun process_loop_v1 ::
  "(real \<Rightarrow> real) \<Rightarrow> 'p browser \<Rightarrow> callback option \<Rightarrow> int \<Rightarrow> (nat \<times> string) list \<Rightarrow>
     'p list \<Rightarrow> event list \<Rightarrow> 'p list \<times> event list" where
  "process_loop_v1 rnd br cb n_total [] patents_data tr = (patents_data, tr)"
| "process_loop_v1 rnd br cb n_total ((idx, wo) # rest) patents_data tr =
     (case report_progress_v1 rnd cb n_total idx tr of
        (Some e, tr1) \<Rightarrow> process_loop_v1 rnd br cb n_total rest patents_data tr1
      | (None, tr1) \<Rightarrow>
          (case extract_patent_data br wo of
             Some patent_data \<Rightarrow>
               process_loop_v1 rnd br cb n_total rest (patents_data @ [patent_data]) tr1
           | None \<Rightarrow> process_loop_v1 rnd br cb n_total rest patents_data tr1))"

definition found_message :: "nat \<Rightarrow> string" where
  "found_message n = ''Found '' @ str_nat n @ '' WO patents''"

definition search_wipo_v1 ::
  "(real \<Rightarrow> real) \<Rightarrow> 'p browser \<Rightarrow> int \<Rightarrow> callback option \<Rightarrow> event list \<Rightarrow>
     'p list \<times> event list" where
  "search_wipo_v1 rnd br max_results cb tr =
     (if listing_goto_raises br then ([], tr)
      else
        (let wo_numbers = listed_wo_numbers br;
             message = found_message (length wo_numbers)
         in case (case cb of
                    None \<Rightarrow> (Returns, tr)
                  | Some f \<Rightarrow> (f 5 message, tr @ [Progress 5 message])) of
              (Raises, tr0) \<Rightarrow> ([], tr0)
            | (Returns, tr0) \<Rightarrow>
                process_loop_v1 rnd br cb (int (length wo_numbers))
                  (enumerate 1 (slice_to wo_numbers max_results)) [] tr0))"

text \<open>The percent arguments of the callback calls in a trace.\<close>

fun percents :: "event list \<Rightarrow> int list" where
  "percents [] = []"
| "percents (Progress p m # evs) = p # percents evs"
| "percents (e # evs) = percents evs"

section \<open>Claims of a patent\<close>

text \<open>
  \<open>_extract_claims\<close> reads the text of each element of class \<open>claim\<close>. The selector query
  may raise (then the result is empty), and so may \<open>inner_text\<close> of one element (then that
  element is skipped).
\<close>

record patent_claim =
  claim_number :: nat
  claim_type :: string
  claim_text :: string



definition digit_value :: "char \<Rightarrow> nat" where
  "digit_value c = of_char c - of_char CHR ''0''"

definition int_of_digits :: "string \<Rightarrow> nat" where
  "int_of_digits ds = foldl (\<lambda>acc c. 10 * acc + digit_value c) 0 ds"

text \<open>
  \<open>int(s)\<close> for a string of decimal digits. CPython (3.11 and later, with its default
  setting) raises \<open>ValueError\<close> when the string holds more than 4300 digits; \<open>None\<close> is that
  exception. Otherwise the result is the decimal value of the digits.
\<close>

definition max_str_digits :: nat where
  "max_str_digits = 4300"

definition py_int_of_digits :: "string \<Rightarrow> nat option" where
  "py_int_of_digits ds =
     (if max_str_digits < length ds then None else Some (int_of_digits ds))"

text \<open>\<open>re.search(r'claim\s+\d+', claim_text, re.IGNORECASE)\<close>.\<close>

definition claim_ref_here :: "string \<Rightarrow> bool" where
  "claim_ref_here s =
     (lower (take 5 s) = ''claim'' \<and> takeWhile isspace (drop 5 s) \<noteq> [] \<and>
      (case dropWhile isspace (drop 5 s) of [] \<Rightarrow> False | d # r \<Rightarrow> isdigit d))"

fun claim_ref_search :: "string \<Rightarrow> bool" where
  "claim_ref_search [] = False"
| "claim_ref_search (c # cs) = (claim_ref_here (c # cs) \<or> claim_ref_search cs)"

text \<open>\<open>re.match(r'^(\d+)\.\s*', text)\<close> and the body of the \<open>if match:\<close>. When \<open>int\<close>
  raises, the \<open>except\<close> around the body skips the element: the result is \<open>None\<close>, as it
  is when the text does not match.\<close>

definition parse_claim :: "string \<Rightarrow> patent_claim option" where
  "parse_claim txt =
     (let ds = takeWhile isdigit txt; r = dropWhile isdigit txt
      in case r of
           [] \<Rightarrow> None
         | c # after_dot \<Rightarrow>
             if ds \<noteq> [] \<and> c = CHR ''.'' then
               (case py_int_of_digits ds of
                  None \<Rightarrow> None
                | Some claim_num \<Rightarrow>
                    (let claim_text = strip (dropWhile isspace after_dot);
                         is_dependent = claim_ref_search claim_text
                     in Some \<lparr>claim_number = claim_num,
                              claim_type = (if is_dependent then ''dependent'' else ''independent''),
                              claim_text = claim_text\<rparr>))
             else None)"

text \<open>The reference to another claim as the specification words it: the word \<open>claim\<close>
  (in any case, not the tail of a longer word) followed by a number. The flag says
  whether the position is the start of a word. It is used only to compare that wording
  with \<open>claim_ref_search\<close>, which is what the code runs.\<close>

fun word_claim_search :: "bool \<Rightarrow> string \<Rightarrow> bool" where
  "word_claim_search at_start [] = False"
| "word_claim_search at_start (c # cs) =
     ((at_start \<and> claim_ref_here (c # cs)) \<or> word_claim_search (\<not> isalpha_ascii c) cs)"

definition spec_word_claim_ref :: "string \<Rightarrow> bool" where
  "spec_word_claim_ref s = word_claim_search True s"




section \<open>Outcomes, apart from the state\<close>

text \<open>
  What the tiers return for an identifier, and what one pass of the loop's \<open>try\<close> block
  returns, read off a run from the start state. Neither depends on the state the run is
  in (lemmas \<open>tiers_result_any_state\<close> and \<open>step_result_any_state\<close>).
\<close>

definition tiers_result :: "crawler \<Rightarrow> world \<Rightarrow> string \<Rightarrow> exn + patent" where
  "tiers_result cr w wo = fst (extract_patent_tiered cr w wo start_state)"

definition step_result ::
  "(real \<Rightarrow> real) \<Rightarrow> crawler \<Rightarrow> world \<Rightarrow> callback option \<Rightarrow> int \<Rightarrow> nat \<times> string \<Rightarrow> exn + patent" where
  "step_result rnd cr w cb n_total iw =
     fst (try_body rnd cr w cb n_total (fst iw) (snd iw) start_state)"

text \<open>The requests a trace holds for one identifier are in order when they are
  none, the GET alone, or the GET and then the navigation.\<close>

definition tiers_in_order :: "string \<Rightarrow> event list \<Rightarrow> bool" where
  "tiers_in_order wo evs =
     (tier_events wo evs = [] \<or> tier_events wo evs = [Get wo] \<or>
      tier_events wo evs = [Get wo, Goto wo])"

definition is_progress :: "event \<Rightarrow> bool" where
  "is_progress e = (case e of Progress p m \<Rightarrow> True | Get wo \<Rightarrow> False | Goto wo \<Rightarrow> False)"

text \<open>The callback calls of the loop when no call raises: one on every fifth identifier
  of the \<open>n\<close> the loop goes through.\<close>

definition cadence_calls :: "(real \<Rightarrow> real) \<Rightarrow> int \<Rightarrow> nat \<Rightarrow> event list" where
  "cadence_calls rnd n_total n =
     map (\<lambda>idx. Progress (progress_percent rnd idx n_total) (progress_message idx n_total))
       (filter (\<lambda>idx. idx mod 5 = 0) [1..<Suc n])"

definition cadence_calls_v1 :: "(real \<Rightarrow> real) \<Rightarrow> int \<Rightarrow> nat \<Rightarrow> event list" where
  "cadence_calls_v1 rnd n_total n =
     map (\<lambda>idx. Progress (progress_percent_v1 rnd idx n_total) (progress_message_v1 idx n_total))
       (filter (\<lambda>idx. idx mod 10 = 0) [1..<Suc n])"

text \<open>The callback call one pass of the loop makes, if any.\<close>

definition pass_progress :: "(real \<Rightarrow> real) \<Rightarrow> callback option \<Rightarrow> int \<Rightarrow> nat \<Rightarrow> event list" where
  "pass_progress rnd cb n_total idx =
     (case cb of
        None \<Rightarrow> []
      | Some f \<Rightarrow>
          if idx mod 5 = 0 \<and> n_total \<noteq> 0
          then [Progress (progress_percent rnd idx n_total) (progress_message idx n_total)]
          else [])"

text \<open>\<open>total\<close> of a run, the passes of its loop, and the outcome of each pass in order.\<close>

definition run_total :: "world \<Rightarrow> string \<Rightarrow> int \<Rightarrow> int" where
  "run_total w query max_results = min (int (length (get_wo_list_httpx w query))) max_results"

definition run_passes :: "world \<Rightarrow> string \<Rightarrow> int \<Rightarrow> (nat \<times> string) list" where
  "run_passes w query max_results = enumerate 1 (processed_candidates w query max_results)"

definition run_outcomes ::
  "(real \<Rightarrow> real) \<Rightarrow> crawler \<Rightarrow> world \<Rightarrow> string \<Rightarrow> int \<Rightarrow> callback option \<Rightarrow> (exn + patent) list" where
  "run_outcomes rnd cr w query max_results cb =
     map (step_result rnd cr w cb (run_total w query max_results))
       (run_passes w query max_results)"

section \<open>Concrete runs\<close>

text \<open>Documents, environments and callbacks on which the model is run in the examples
  that follow the theorems.\<close>

definition no_groq :: "string \<Rightarrow> groq_reply" where
  "no_groq field_name = GroqError"

definition page_titled :: "string \<Rightarrow> page" where
  "page_titled t =
     \<lparr>html = ''<html>WO/2022/049075</html>'', label_title = t, label_pub_num = [],
      list_applicants = [''BAYER''], list_inventors = [], label_ipc = ''A61K 31/4439'',
      label_cpc = [], label_filing_date = [], label_pub_date = [],
      abstract_text = [], groq_service = no_groq\<rparr>"

definition listing_of :: "string list \<Rightarrow> listing" where
  "listing_of ts =
     \<lparr>by_title_class = map (\<lambda>t. \<lparr>elem_text = t, elem_href = None\<rparr>) ts,
      by_number_class = [], by_doc_link = []\<rparr>"

definition always_static :: "string \<Rightarrow> http_result" where
  "always_static wo = HttpResponse 200 (page_titled ''Crystalline forms of darolutamide'')"

definition never_rendered :: "string \<Rightarrow> nav_result" where
  "never_rendered wo = ContainerMissing"

definition two_listed :: "string \<Rightarrow> search_result" where
  "two_listed query = SearchResponse 200 (listing_of [''WO/2022/049075'', ''WO/2019/028689''])"

definition scenario_world :: world where
  "scenario_world =
     \<lparr>http_get = always_static, page_goto = never_rendered, search_get = two_listed\<rparr>"

definition plain_crawler :: crawler where
  "plain_crawler = \<lparr>use_playwright = True, groq_api_key = None\<rparr>"


text \<open>A world where the first identifier fails validation at tier 1 and succeeds at tier 2,
  the second succeeds at tier 1 and the third fails at both tiers.\<close>

definition escalating_get :: "string \<Rightarrow> http_result" where
  "escalating_get wo =
     (if wo = ''WO2022049075'' then HttpResponse 200 (page_titled ''Click'')
      else if wo = ''WO2019028689''
        then HttpResponse 200 (page_titled ''Crystalline forms of darolutamide'')
      else HttpResponse 404 (page_titled []))"

definition escalating_goto :: "string \<Rightarrow> nav_result" where
  "escalating_goto wo =
     (if wo = ''WO2022049075'' then Rendered (page_titled ''Androgen receptor antagonists'')
      else ContainerMissing)"

definition three_listed :: "string \<Rightarrow> search_result" where
  "three_listed query =
     SearchResponse 200 (listing_of [''WO/2022/049075'', ''WO/2019/028689'', ''WO/2020/000001''])"

definition escalating_world :: world where
  "escalating_world =
     \<lparr>http_get = escalating_get, page_goto = escalating_goto, search_get = three_listed\<rparr>"

text \<open>A world with eight identifiers that all succeed at tier 1, a callback that
  returns, and one that raises on every call made inside the loop.\<close>

definition eight_listed :: "string \<Rightarrow> search_result" where
  "eight_listed query =
     SearchResponse 200
       (listing_of [''WO/2021/000001'', ''WO/2021/000002'', ''WO/2021/000003'',
                    ''WO/2021/000004'', ''WO/2021/000005'', ''WO/2021/000006'',
                    ''WO/2021/000007'', ''WO/2021/000008''])"

definition eight_world :: world where
  "eight_world = \<lparr>http_get = always_static, page_goto = never_rendered, search_get = eight_listed\<rparr>"

definition quiet_callback :: callback where
  "quiet_callback percent message = Returns"

definition raising_callback :: callback where
  "raising_callback percent message =
     (if message = ''Getting WO list...'' then Returns else Raises)"

text \<open>A browser of the first crawler that lists ten identifiers and extracts each.\<close>

definition ten_browser :: "string browser" where
  "ten_browser =
     \<lparr>listing_goto_raises = False,
      listed_wo_numbers = map str_nat [1..<11],
      extract_patent_data = (\<lambda>wo. Some wo)\<rparr>"

text \<open>A document with no applicant found by the structural lookup, for which the
  service answers \<open>click\<close> to every question.\<close>

definition noisy_groq :: "string \<Rightarrow> groq_reply" where
  "noisy_groq field_name = GroqContent ''click''"

definition page_no_applicants :: page where
  "page_no_applicants =
     \<lparr>html = [], label_title = ''Crystalline forms of darolutamide'', label_pub_num = [],
      list_applicants = [], list_inventors = [], label_ipc = ''A61K 31/4439'',
      label_cpc = [], label_filing_date = [], label_pub_date = [],
      abstract_text = [], groq_service = noisy_groq\<rparr>"

definition keyed_crawler :: crawler where
  "keyed_crawler = \<lparr>use_playwright = True, groq_api_key = Some ''gsk_key''\<rparr>"

section \<open>Facts about strings\<close>

lemma strip_Nil [simp]: "strip [] = []"
  by (simp add: strip_def)

lemma lower_char_W: "lower_char CHR ''W'' = CHR ''w''"
  by code_simp

lemma lower_char_O: "lower_char CHR ''O'' = CHR ''o''"
  by code_simp

lemma startswith_WO_shape: "startswith s ''WO'' \<Longrightarrow> \<exists>r. s = CHR ''W'' # CHR ''O'' # r"
proof -
  assume h: "startswith s ''WO''"
  then have t: "take (length ''WO'') s = ''WO''"
    by (simp only: startswith_def)
  have "s = take (length ''WO'') s @ drop (length ''WO'') s"
    by (simp only: append_take_drop_id)
  with t have "s = ''WO'' @ drop (length ''WO'') s"
    by (simp only:)
  then show ?thesis
    by auto
qed

lemma startswith_WO_not_noise:
  assumes "startswith s ''WO''"
  shows "lower s \<notin> set invalid_patterns"
proof -
  from assms obtain r where s: "s = CHR ''W'' # CHR ''O'' # r"
    using startswith_WO_shape by blast
  have "lower s = CHR ''w'' # CHR ''o'' # lower r"
    by (simp add: s lower_def lower_char_W lower_char_O)
  then show ?thesis
    by (simp add: invalid_patterns_def)
qed

lemma ipc_search_iff:
  "ipc_search s \<longleftrightarrow>
     (\<exists>pre a d1 d2 b post. s = pre @ a # d1 # d2 # b # post \<and>
        in_range CHR ''A'' CHR ''H'' a \<and> isdigit d1 \<and> isdigit d2 \<and> in_range CHR ''A'' CHR ''Z'' b)"
  (is "_ \<longleftrightarrow> ?R s")
proof (induction s)
  case Nil
  then show ?case by simp
next
  case (Cons c cs)
  have here: "ipc_match_here (c # cs) \<longleftrightarrow>
      (\<exists>d1 d2 b post. cs = d1 # d2 # b # post \<and>
        in_range CHR ''A'' CHR ''H'' c \<and> isdigit d1 \<and> isdigit d2 \<and> in_range CHR ''A'' CHR ''Z'' b)"
    by (cases "(c # cs)" rule: ipc_match_here.cases) auto
  show ?case
  proof
    assume "ipc_search (c # cs)"
    then consider "ipc_match_here (c # cs)" | "ipc_search cs"
      by auto
    then show "?R (c # cs)"
    proof cases
      case 1
      with here obtain d1 d2 b post where "cs = d1 # d2 # b # post"
        "in_range CHR ''A'' CHR ''H'' c" "isdigit d1" "isdigit d2" "in_range CHR ''A'' CHR ''Z'' b"
        by blast
      then have "c # cs = [] @ c # d1 # d2 # b # post \<and>
        in_range CHR ''A'' CHR ''H'' c \<and> isdigit d1 \<and> isdigit d2 \<and> in_range CHR ''A'' CHR ''Z'' b"
        by simp
      then show ?thesis by blast
    next
      case 2
      with Cons.IH obtain pre a d1 d2 b post where "cs = pre @ a # d1 # d2 # b # post"
        "in_range CHR ''A'' CHR ''H'' a" "isdigit d1" "isdigit d2" "in_range CHR ''A'' CHR ''Z'' b"
        by blast
      then have "c # cs = (c # pre) @ a # d1 # d2 # b # post \<and>
        in_range CHR ''A'' CHR ''H'' a \<and> isdigit d1 \<and> isdigit d2 \<and> in_range CHR ''A'' CHR ''Z'' b"
        by simp
      then show ?thesis by blast
    qed
  next
    assume "?R (c # cs)"
    then obtain pre a d1 d2 b post where eq: "c # cs = pre @ a # d1 # d2 # b # post"
      and cls: "in_range CHR ''A'' CHR ''H'' a" "isdigit d1" "isdigit d2"
        "in_range CHR ''A'' CHR ''Z'' b"
      by blast
    show "ipc_search (c # cs)"
    proof (cases pre)
      case Nil
      with eq cls have "ipc_match_here (c # cs)"
        by (simp add: here)
      then show ?thesis by simp
    next
      case (Cons p ps)
      with eq have "cs = ps @ a # d1 # d2 # b # post"
        by simp
      with cls have "?R cs" by blast
      with Cons.IH show ?thesis by simp
    qed
  qed
qed

section \<open>The statistics\<close>

lemma scenario_stats:
  "stats (snd (search_wipo rnd plain_crawler scenario_world ''darolutamide'' 50 None start_state))
     = \<lparr>static_success = 2, direct_success = 0, interactive_success = 0, failures = 0\<rparr>"
  by code_simp

lemma scenario_result:
  "map wo_number (projr (fst (search_wipo rnd plain_crawler scenario_world ''darolutamide'' 50
      None start_state))) = [''WO2022049075'', ''WO2019028689'']"
  by code_simp

text \<open>
  C1, as stated, fails: the claim gives the success rate as the ratio
  \<open>(attempts - failures) / attempts\<close>, while \<open>success_rate\<close> returns that ratio times 100.
  After two successes of tier 1 and no failure the ratio is 1 and the code returns 100.
\<close>

theorem success_rate_ratio_counterexample:
  "success_rate id \<lparr>static_success = 2, direct_success = 0, interactive_success = 0, failures = 0\<rparr>
     \<noteq> of_int (attempts \<lparr>static_success = 2, direct_success = 0, interactive_success = 0, failures = 0\<rparr>
               - failures \<lparr>static_success = 2, direct_success = 0, interactive_success = 0, failures = 0\<rparr>)
         / of_int (attempts \<lparr>static_success = 2, direct_success = 0, interactive_success = 0, failures = 0\<rparr>)"
  by (simp add: success_rate_def attempts_def)

text \<open>
  C1, amended: for every state of the statistics, \<open>success_rate\<close> is the percentage
  \<open>(attempts - failures) / attempts * 100\<close>, where \<open>attempts\<close> is the sum of the three
  success counters and the failures counter, and it is 0 when \<open>attempts = 0\<close>. The first
  conjunct states it with the two roundings of the floating-point computation, the second
  in exact arithmetic. Third conjunct: in the run over two listed identifiers that both
  succeed at tier 1, the final statistics give a success rate of 100.
\<close>

theorem success_rate_percentage:
  "success_rate rnd s =
     (if attempts s = 0 then 0
      else rnd (rnd (of_int (attempts s - failures s) / of_int (attempts s)) * 100))
   \<and> success_rate id s =
     (if attempts s = 0 then 0
      else of_int (attempts s - failures s) / of_int (attempts s) * 100)
   \<and> (rounding rnd \<longrightarrow>
        success_rate rnd
          (stats (snd (search_wipo rnd plain_crawler scenario_world ''darolutamide'' 50 None
             start_state))) = 100)"
proof -
  have a: "success_rate r s =
     (if attempts s = 0 then 0
      else r (r (of_int (attempts s - failures s) / of_int (attempts s)) * 100))" for r
    by (simp add: success_rate_def attempts_def Let_def)
  have c: "success_rate rnd
      (stats (snd (search_wipo rnd plain_crawler scenario_world ''darolutamide'' 50 None
         start_state))) = 100" if "rounding rnd"
    using that by (simp add: scenario_stats success_rate_def rounding_def)
  from a [of rnd] a [of id] c show ?thesis
    by simp
qed

theorem success_rate_percentage_witness:
  "rounding id
   \<and> success_rate id
        (stats (snd (search_wipo id plain_crawler scenario_world ''darolutamide'' 50 None
           start_state))) = 100"
proof -
  have r: "rounding id"
    by (simp add: rounding_def mono_def)
  with success_rate_percentage [of id fresh_stats] show ?thesis
    by simp
qed

section \<open>The validator\<close>

text \<open>
  C7: \<open>looks_wrong\<close> is a function of its two arguments alone (it reads no state and
  no environment, so equal arguments give equal results). For the kind
  \<open>publication_number\<close> a value is reported wrong exactly when it lacks the prefix \<open>WO\<close>;
  the code looks for the prefix after trimming the whitespace around the value, as it
  does for every kind. \<open>WO2022049075\<close> is not wrong and \<open>XY123\<close> is.
\<close>

theorem looks_wrong_publication_number:
  "looks_wrong v ''publication_number'' = (\<not> startswith (strip v) ''WO'')
   \<and> looks_wrong ''WO2022049075'' ''publication_number'' = False
   \<and> looks_wrong ''XY123'' ''publication_number'' = True"
proof -
  have ex1: "looks_wrong ''WO2022049075'' ''publication_number'' = False"
    by code_simp
  have ex2: "looks_wrong ''XY123'' ''publication_number'' = True"
    by code_simp
  have gen: "looks_wrong v ''publication_number'' = (\<not> startswith (strip v) ''WO'')"
  proof (cases "strip v = []")
    case True
    then show ?thesis
      by (simp add: looks_wrong_def startswith_def)
  next
    case False
    then have nv: "v \<noteq> []" by auto
    show ?thesis
    proof (cases "lower (strip v) \<in> set invalid_patterns")
      case True
      then have "\<not> startswith (strip v) ''WO''"
        using startswith_WO_not_noise by blast
      with True False nv show ?thesis
        by (simp add: looks_wrong_def)
    next
      case n: False
      have "''publication_number'' \<noteq> ''title''" "''publication_number'' \<noteq> ''ipc''"
        by simp_all
      with n False nv show ?thesis
        by (simp add: looks_wrong_def Let_def)
    qed
  qed
  from gen ex1 ex2 show ?thesis by blast
qed

text \<open>
  C8, as stated, fails for the kind \<open>cpc\<close>: \<open>looks_wrong\<close> has no branch for it. The value
  \<open>12345\<close> is neither empty nor noise and has no letter at all, so it matches the shape
  under no reading, and it is not reported wrong.
\<close>

theorem looks_wrong_cpc_counterexample:
  "strip ''12345'' \<noteq> [] \<and> lower (strip ''12345'') \<notin> set invalid_patterns
   \<and> \<not> spec_code_shape ''12345'' \<and> \<not> ipc_search ''12345''
   \<and> looks_wrong ''12345'' ''cpc'' = False"
  by code_simp

text \<open>
  C8, amended: for every value that is neither empty nor noise after trimming, the kind
  \<open>ipc\<close> is reported wrong exactly when the trimmed value contains nowhere a letter
  \<open>A\<close> to \<open>H\<close>, two digits and a letter \<open>A\<close> to \<open>Z\<close> in a row; the kind \<open>cpc\<close> has no check
  of its own and such a value is never reported wrong.
\<close>

theorem looks_wrong_classification:
  assumes "strip v \<noteq> []" and "lower (strip v) \<notin> set invalid_patterns"
  shows "looks_wrong v ''ipc'' =
           (\<not> (\<exists>pre a d1 d2 b post. strip v = pre @ a # d1 # d2 # b # post \<and>
                 in_range CHR ''A'' CHR ''H'' a \<and> isdigit d1 \<and> isdigit d2 \<and>
                 in_range CHR ''A'' CHR ''Z'' b))
         \<and> looks_wrong v ''cpc'' = False"
proof -
  from assms have nv: "v \<noteq> []" by auto
  have a: "looks_wrong v ''ipc'' = (\<not> ipc_search (strip v))"
    using assms nv by (simp add: looks_wrong_def Let_def)
  have b: "looks_wrong v ''cpc'' = False"
    using assms nv by (simp add: looks_wrong_def Let_def)
  from a b show ?thesis
    by (simp only: ipc_search_iff)
qed

theorem looks_wrong_classification_witness:
  "strip ''A61K 31/4439'' \<noteq> [] \<and> lower (strip ''A61K 31/4439'') \<notin> set invalid_patterns
   \<and> looks_wrong ''A61K 31/4439'' ''ipc'' = False
   \<and> looks_wrong ''A61K 31/4439'' ''cpc'' = False"
proof -
  have h1: "strip ''A61K 31/4439'' \<noteq> []"
    by code_simp
  have h2: "lower (strip ''A61K 31/4439'') \<notin> set invalid_patterns"
    by code_simp
  have "looks_wrong ''A61K 31/4439'' ''ipc'' = False"
    by code_simp
  with h1 h2 looks_wrong_classification [OF h1 h2] show ?thesis
    by blast
qed

section \<open>Claims of a patent\<close>


lemma dot_not_digit: "\<not> isdigit CHR ''.''"
  by code_simp


lemma length_lower [simp]: "length (lower s) = length s"
  by (simp add: lower_def)




lemma parse_claim_long:
  assumes "list_all isdigit ds" and "max_str_digits < length ds"
  shows "parse_claim (ds @ CHR ''.'' # rest) = None"
proof -
  from assms have tw: "takeWhile isdigit (ds @ CHR ''.'' # rest) = ds"
    by (simp add: list_all_iff dot_not_digit)
  from assms have dw: "dropWhile isdigit (ds @ CHR ''.'' # rest) = CHR ''.'' # rest"
    by (simp add: list_all_iff dot_not_digit)
  from assms(2) have c: "py_int_of_digits ds = None"
    by (simp add: py_int_of_digits_def)
  show ?thesis
    by (simp add: parse_claim_def tw dw c Let_def)
qed






text \<open>
  C10, as stated, fails in two ways. The claim makes a claim \<open>dependent\<close> exactly when its
  text contains the word \<open>claim\<close> followed by a number; the code looks for the letters
  \<open>claim\<close> anywhere, so \<open>reclaim 3 items\<close>, where \<open>claim\<close> is the tail of another word, is
  \<open>dependent\<close>. And the claim gives every element whose text begins with a number and a
  period a place in the output; an element whose number has more than 4300 digits is
  left out, because \<open>int\<close> raises and the element is skipped.
\<close>

theorem extract_claims_word_counterexample:
  "parse_claim ''10. reclaim 3 items'' =
     Some \<lparr>claim_number = 10, claim_type = ''dependent'', claim_text = ''reclaim 3 items''\<rparr>
   \<and> \<not> spec_word_claim_ref ''reclaim 3 items''
   \<and> spec_word_claim_ref ''The compound of Claim 1''
   \<and> list_all isdigit (replicate 4301 CHR ''1'')
   \<and> parse_claim (replicate 4301 CHR ''1'' @ CHR ''.'' # '' A compound.'') = None"
proof -
  have a: "parse_claim ''10. reclaim 3 items'' =
     Some \<lparr>claim_number = 10, claim_type = ''dependent'', claim_text = ''reclaim 3 items''\<rparr>"
    by code_simp
  have b: "\<not> spec_word_claim_ref ''reclaim 3 items''"
    by code_simp
  have c: "spec_word_claim_ref ''The compound of Claim 1''"
    by code_simp
  have "isdigit CHR ''1''"
    by code_simp
  then have d: "list_all isdigit (replicate 4301 CHR ''1'')"
    by (simp add: list_all_iff)
  have "max_str_digits < length (replicate 4301 CHR ''1'')"
    by (simp add: max_str_digits_def)
  from parse_claim_long [OF d this] a b c d show ?thesis
    by blast
qed



section \<open>The candidate listing\<close>

lemma fromkeys_foldl_set: "set (foldl fromkeys_step acc xs) = set acc \<union> set xs"
  by (induction xs arbitrary: acc) (auto simp: fromkeys_step_def)

lemma fromkeys_foldl_distinct: "distinct acc \<Longrightarrow> distinct (foldl fromkeys_step acc xs)"
  by (induction xs arbitrary: acc) (auto simp: fromkeys_step_def)

lemma set_dict_fromkeys [simp]: "set (dict_fromkeys xs) = set xs"
  by (simp add: dict_fromkeys_def fromkeys_foldl_set)

lemma distinct_dict_fromkeys [simp]: "distinct (dict_fromkeys xs)"
  by (simp add: dict_fromkeys_def fromkeys_foldl_distinct)

lemma dict_fromkeys_snoc: "dict_fromkeys (xs @ [x]) = fromkeys_step (dict_fromkeys xs) x"
  by (simp add: dict_fromkeys_def)

lemma first_index_append_in: "a \<in> set xs \<Longrightarrow> first_index (xs @ ys) a = first_index xs a"
proof -
  assume "a \<in> set xs"
  then have "takeWhile (\<lambda>y. y \<noteq> a) (xs @ ys) = takeWhile (\<lambda>y. y \<noteq> a) xs"
    by (intro takeWhile_append1 [of a]) auto
  then show ?thesis by (simp add: first_index_def)
qed

lemma first_index_less: "a \<in> set xs \<Longrightarrow> first_index xs a < length xs"
  by (induction xs) (auto simp: first_index_def)

lemma first_index_new: "x \<notin> set xs \<Longrightarrow> first_index (xs @ [x]) x = length xs"
proof -
  assume "x \<notin> set xs"
  then have "takeWhile (\<lambda>y. y \<noteq> x) (xs @ [x]) = xs"
    by (auto simp: takeWhile_tail)
  then show ?thesis by (simp add: first_index_def)
qed

lemma dict_fromkeys_order: "first_seen_order xs (dict_fromkeys xs)"
proof (induction xs rule: rev_induct)
  case Nil
  then show ?case by (simp add: first_seen_order_def dict_fromkeys_def)
next
  case (snoc x xs)
  let ?r = "dict_fromkeys xs"
  have same: "sorted_wrt (\<lambda>a b. first_index (xs @ [x]) a < first_index (xs @ [x]) b) ?r"
  proof (rule sorted_wrt_mono_rel [of ?r "\<lambda>a b. first_index xs a < first_index xs b"])
    fix a b assume "a \<in> set ?r" "b \<in> set ?r" "first_index xs a < first_index xs b"
    then show "first_index (xs @ [x]) a < first_index (xs @ [x]) b"
      by (simp add: first_index_append_in)
  next
    from snoc show "sorted_wrt (\<lambda>a b. first_index xs a < first_index xs b) ?r"
      by (simp add: first_seen_order_def)
  qed
  show ?case
  proof (cases "x \<in> set xs")
    case True
    with same show ?thesis
      by (simp add: first_seen_order_def dict_fromkeys_snoc fromkeys_step_def)
  next
    case False
    have "first_index (xs @ [x]) a < first_index (xs @ [x]) x" if "a \<in> set xs" for a
      using that False by (simp add: first_index_append_in first_index_new first_index_less)
    with same False show ?thesis
      by (simp add: first_seen_order_def dict_fromkeys_snoc fromkeys_step_def sorted_wrt_append)
  qed
qed

lemma collect_wo_numbers_map_filter:
  "collect_wo_numbers es acc = acc @ List.map_filter wo_of_element es"
proof (induction es arbitrary: acc)
  case Nil
  then show ?case by (simp add: List.map_filter_simps)
next
  case (Cons e es)
  then show ?case
    by (cases "wo_of_element e") (simp_all add: List.map_filter_simps)
qed

lemma collect_doc_ids_map_filter:
  "collect_doc_ids hs acc = acc @ List.map_filter docid_search hs"
proof (induction hs arbitrary: acc)
  case Nil
  then show ?case by (simp add: List.map_filter_simps)
next
  case (Cons h hs)
  then show ?case
    by (cases "docid_search h") (simp_all add: List.map_filter_simps)
qed

lemma wo_of_element_normalized: "wo_of_element e = Some wo \<Longrightarrow> normalized wo"
  by (auto simp: wo_of_element_def normalized_def Let_def list_ex_iff split: if_splits)

lemma digit_not_separator: "isdigit c \<Longrightarrow> \<not> is_separator c"
  by (auto simp: isdigit_def is_separator_def isspace_def)

lemma docid_match_here_normalized: "docid_match_here s = Some g \<Longrightarrow> normalized g"
proof -
  assume "docid_match_here s = Some g"
  then have g: "g = ''WO'' @ takeWhile isdigit (drop 8 s)"
    by (auto simp: docid_match_here_def split: if_splits)
  have "\<not> is_separator c" if "c \<in> set (takeWhile isdigit (drop 8 s))" for c
    using that digit_not_separator by (auto dest: set_takeWhileD)
  moreover have "\<not> is_separator CHR ''W''" "\<not> is_separator CHR ''O''"
    by code_simp+
  ultimately show ?thesis
    by (auto simp: g normalized_def startswith_def list_ex_iff)
qed

lemma docid_search_normalized: "docid_search h = Some g \<Longrightarrow> normalized g"
  by (induction h) (auto split: option.splits dest: docid_match_here_normalized)

lemma set_map_filter: "set (List.map_filter f xs) = {y. \<exists>x\<in>set xs. f x = Some y}"
  by (force simp: List.map_filter_def)

lemma slice_to_take: "\<exists>k. slice_to xs m = take k xs"
  by (auto simp: slice_to_def)

lemma slice_to_nonneg: "0 \<le> m \<Longrightarrow> slice_to xs m = take (nat m) xs"
  by (simp add: slice_to_def)

lemma set_slice_to: "set (slice_to xs m) \<subseteq> set xs"
  by (auto simp: slice_to_def dest: in_set_takeD)

lemma distinct_slice_to: "distinct xs \<Longrightarrow> distinct (slice_to xs m)"
  by (simp add: slice_to_def)

lemma first_seen_order_slice_to:
  "first_seen_order ts xs \<Longrightarrow> first_seen_order ts (slice_to xs m)"
  by (simp add: first_seen_order_def slice_to_def sorted_wrt_take)

lemma length_dict_fromkeys: "length (dict_fromkeys ts) = card (set ts)"
proof -
  have "card (set (dict_fromkeys ts)) = length (dict_fromkeys ts)"
    by (rule distinct_card) simp
  then show ?thesis by simp
qed

lemma length_slice_dict_fromkeys:
  "0 \<le> m \<Longrightarrow> length (slice_to (dict_fromkeys ts) m) = min (nat m) (card (set ts))"
  by (simp add: slice_to_nonneg length_dict_fromkeys min.commute)

lemma get_wo_list_httpx_cases:
  "get_wo_list_httpx w query = [] \<or>
   (\<exists>l. search_get w query = SearchResponse 200 l \<and>
        get_wo_list_httpx w query = dict_fromkeys (listing_tokens l))"
  by (auto simp: get_wo_list_httpx_def listing_tokens_def collect_wo_numbers_map_filter
      split: search_result.splits)

lemma get_wo_list_httpx_ok:
  "search_get w query = SearchResponse 200 l \<Longrightarrow>
     get_wo_list_httpx w query = dict_fromkeys (listing_tokens l)"
  by (simp add: get_wo_list_httpx_def listing_tokens_def collect_wo_numbers_map_filter)

lemma listing_tokens_normalized: "wo \<in> set (listing_tokens l) \<Longrightarrow> normalized wo"
  by (auto simp: listing_tokens_def set_map_filter dest: wo_of_element_normalized)

lemma get_wo_list_httpx_normalized: "wo \<in> set (get_wo_list_httpx w query) \<Longrightarrow> normalized wo"
  using get_wo_list_httpx_cases [of w query] by (auto dest: listing_tokens_normalized)

lemma get_wo_list_httpx_distinct: "distinct (get_wo_list_httpx w query)"
  using get_wo_list_httpx_cases [of w query] by auto

lemma keeps_first_take: "keeps_first tokens (take k (dict_fromkeys tokens))"
proof -
  let ?full = "dict_fromkeys tokens"
  have s: "sorted_wrt (\<lambda>a b. first_index tokens a < first_index tokens b) ?full"
    using dict_fromkeys_order [of tokens] by (simp add: first_seen_order_def)
  have "b \<in> set (take k ?full)"
    if a: "a \<in> set (take k ?full)" and b: "b \<in> set tokens"
      and lt: "first_index tokens b < first_index tokens a" for a b
  proof -
    from a obtain i where i: "i < k" "i < length ?full" "?full ! i = a"
      by (auto simp: in_set_conv_nth)
    from b have "b \<in> set ?full" by simp
    then obtain j where j: "j < length ?full" "?full ! j = b"
      by (metis in_set_conv_nth)
    have "j < i"
    proof (rule ccontr)
      assume "\<not> j < i"
      then consider "j = i" | "i < j" by linarith
      then show False
      proof cases
        case 1
        with i j lt show False by simp
      next
        case 2
        from sorted_wrt_nth_less [OF s 2 j(1)] i j lt show False by simp
      qed
    qed
    with i(1) j have "j < length (take k ?full)" "take k ?full ! j = b"
      by simp_all
    then show ?thesis
      by (metis nth_mem)
  qed
  then show ?thesis
    by (auto simp: keeps_first_def list_all_iff)
qed

lemma keeps_first_slice_to: "keeps_first tokens (slice_to (dict_fromkeys tokens) m)"
  by (simp add: slice_to_def keeps_first_take)

text \<open>
  C6: the identifiers the coordinator goes through hold no duplicate, stand in the order in
  which the listing first shows them, and each is normalized: it starts with \<open>WO\<close> and holds
  no \<open>/\<close>, whitespace or \<open>-\<close>. The cut to the requested maximum drops identifiers
  from the end only: the list is a prefix of the deduplicated listing, for a maximum \<open>m \<ge> 0\<close> its first \<open>m\<close>
  identifiers (all of them when there are fewer), and with an identifier it keeps every
  identifier the listing shows before it. This holds of \<open>wo_list[:max_results]\<close> in
  \<open>WIPOCrawlerV2.search_wipo\<close>, where the lister \<open>_get_wo_list_httpx\<close> removes the
  duplicates and the coordinator's slice cuts the list, and of the list the refactored
  lister \<open>search_wipo(query, limit)\<close> returns.
\<close>

theorem candidate_list:
  "distinct (processed_candidates w query max_results)
   \<and> list_all normalized (processed_candidates w query max_results)
   \<and> (0 \<le> max_results \<longrightarrow> int (length (processed_candidates w query max_results)) \<le> max_results)
   \<and> (\<exists>k. processed_candidates w query max_results = take k (get_wo_list_httpx w query))
   \<and> (0 \<le> max_results \<longrightarrow>
        processed_candidates w query max_results =
          take (nat max_results) (get_wo_list_httpx w query))
   \<and> (search_get w query = SearchResponse 200 l \<longrightarrow>
        first_seen_order (listing_tokens l) (processed_candidates w query max_results)
        \<and> set (processed_candidates w query max_results) \<subseteq> set (listing_tokens l)
        \<and> (0 \<le> max_results \<longrightarrow>
             length (processed_candidates w query max_results) =
               min (nat max_results) (card (set (listing_tokens l))))
        \<and> keeps_first (listing_tokens l) (processed_candidates w query max_results)
        \<and> distinct (get_wo_list_httpx w query)
        \<and> set (get_wo_list_httpx w query) = set (listing_tokens l)
        \<and> first_seen_order (listing_tokens l) (get_wo_list_httpx w query))
   \<and> (list_candidates (Anchors hrefs) limit = Inr ids \<longrightarrow>
        distinct ids \<and> list_all normalized ids
        \<and> first_seen_order (List.map_filter docid_search hrefs) ids
        \<and> set ids \<subseteq> set (List.map_filter docid_search hrefs)
        \<and> (0 \<le> limit \<longrightarrow>
             length ids = min (nat limit) (card (set (List.map_filter docid_search hrefs))))
        \<and> keeps_first (List.map_filter docid_search hrefs) ids)"
proof -
  let ?p = "processed_candidates w query max_results"
  have sub: "set ?p \<subseteq> set (get_wo_list_httpx w query)"
    by (simp add: processed_candidates_def set_slice_to)
  have a: "distinct ?p"
    by (simp add: processed_candidates_def distinct_slice_to get_wo_list_httpx_distinct)
  have b: "list_all normalized ?p"
    using sub get_wo_list_httpx_normalized by (auto simp: list_all_iff)
  have c: "int (length ?p) \<le> max_results" if "0 \<le> max_results"
    using that by (simp add: processed_candidates_def slice_to_nonneg)
  have c1: "\<exists>k. ?p = take k (get_wo_list_httpx w query)"
    by (simp add: processed_candidates_def slice_to_take)
  have c2: "?p = take (nat max_results) (get_wo_list_httpx w query)" if "0 \<le> max_results"
    using that by (simp add: processed_candidates_def slice_to_nonneg)
  have d: "first_seen_order (listing_tokens l) ?p \<and> set ?p \<subseteq> set (listing_tokens l)
        \<and> (0 \<le> max_results \<longrightarrow> length ?p = min (nat max_results) (card (set (listing_tokens l))))
        \<and> keeps_first (listing_tokens l) ?p
        \<and> distinct (get_wo_list_httpx w query)
        \<and> set (get_wo_list_httpx w query) = set (listing_tokens l)
        \<and> first_seen_order (listing_tokens l) (get_wo_list_httpx w query)"
    if "search_get w query = SearchResponse 200 l"
  proof -
    from that have g: "get_wo_list_httpx w query = dict_fromkeys (listing_tokens l)"
      by (rule get_wo_list_httpx_ok)
    have "first_seen_order (listing_tokens l) ?p"
      by (simp add: processed_candidates_def g first_seen_order_slice_to dict_fromkeys_order)
    moreover from sub g have "set ?p \<subseteq> set (listing_tokens l)"
      by simp
    moreover have "length ?p = min (nat max_results) (card (set (listing_tokens l)))"
      if "0 \<le> max_results"
      using that by (simp add: processed_candidates_def g length_slice_dict_fromkeys)
    moreover have "keeps_first (listing_tokens l) ?p"
      by (simp add: processed_candidates_def g keeps_first_slice_to)
    moreover have "distinct (get_wo_list_httpx w query)"
      by (rule get_wo_list_httpx_distinct)
    moreover have "set (get_wo_list_httpx w query) = set (listing_tokens l)"
      by (simp add: g)
    moreover have "first_seen_order (listing_tokens l) (get_wo_list_httpx w query)"
      by (simp add: g dict_fromkeys_order)
    ultimately show ?thesis by blast
  qed
  have e: "distinct ids \<and> list_all normalized ids
        \<and> first_seen_order (List.map_filter docid_search hrefs) ids
        \<and> set ids \<subseteq> set (List.map_filter docid_search hrefs)
        \<and> (0 \<le> limit \<longrightarrow>
             length ids = min (nat limit) (card (set (List.map_filter docid_search hrefs))))
        \<and> keeps_first (List.map_filter docid_search hrefs) ids"
    if "list_candidates (Anchors hrefs) limit = Inr ids"
  proof -
    let ?ts = "List.map_filter docid_search hrefs"
    from that have ids: "ids = slice_to (dict_fromkeys ?ts) limit"
      by (simp add: list_candidates_def collect_doc_ids_map_filter)
    have s: "set ids \<subseteq> set ?ts"
      using set_slice_to [of "dict_fromkeys ?ts" limit] by (simp add: ids)
    have "normalized g" if "g \<in> set ?ts" for g
      using that by (auto simp: set_map_filter dest: docid_search_normalized)
    with s have "list_all normalized ids"
      by (auto simp: list_all_iff)
    moreover have "distinct ids"
      by (simp add: ids distinct_slice_to)
    moreover have "first_seen_order ?ts ids"
      by (simp add: ids first_seen_order_slice_to dict_fromkeys_order)
    moreover have "length ids = min (nat limit) (card (set ?ts))" if "0 \<le> limit"
      using that by (simp add: ids length_slice_dict_fromkeys)
    moreover have "keeps_first ?ts ids"
      by (simp add: ids keeps_first_slice_to)
    ultimately show ?thesis using s by blast
  qed
  from a b c c1 c2 d e show ?thesis
    by blast
qed

theorem candidate_list_witness:
  "search_get scenario_world ''darolutamide'' =
      SearchResponse 200 (listing_of [''WO/2022/049075'', ''WO/2019/028689''])
   \<and> listing_tokens (listing_of [''WO/2022/049075'', ''WO/2019/028689'']) =
      [''WO2022049075'', ''WO2019028689'']
   \<and> get_wo_list_httpx scenario_world ''darolutamide'' = [''WO2022049075'', ''WO2019028689'']
   \<and> processed_candidates scenario_world ''darolutamide'' 1 = [''WO2022049075'']
   \<and> processed_candidates scenario_world ''darolutamide'' 1 =
        take (nat 1) (get_wo_list_httpx scenario_world ''darolutamide'')
   \<and> first_seen_order [''WO2022049075'', ''WO2019028689'']
        (processed_candidates scenario_world ''darolutamide'' 1)
   \<and> keeps_first [''WO2022049075'', ''WO2019028689'']
        (processed_candidates scenario_world ''darolutamide'' 1)
   \<and> \<not> keeps_first [''WO2022049075'', ''WO2019028689''] [''WO2019028689'']
   \<and> list_candidates
        (Anchors [''detail.jsf?docId=WO2022049075&tab=PCT'', ''detail.jsf?docId=WO2019028689'',
                  ''detail.jsf?docId=WO2022049075'', ''result.jsf?docId=WO'']) 1 =
      Inr [''WO2022049075'']
   \<and> keeps_first
        (List.map_filter docid_search
           [''detail.jsf?docId=WO2022049075&tab=PCT'', ''detail.jsf?docId=WO2019028689'',
            ''detail.jsf?docId=WO2022049075'', ''result.jsf?docId=WO''])
        [''WO2022049075'']
   \<and> list_all normalized [''WO2022049075'']"
proof -
  have h1: "search_get scenario_world ''darolutamide'' =
      SearchResponse 200 (listing_of [''WO/2022/049075'', ''WO/2019/028689''])"
    by (simp add: scenario_world_def two_listed_def)
  have h2: "(0::int) \<le> 1"
    by simp
  have h3: "list_candidates
        (Anchors [''detail.jsf?docId=WO2022049075&tab=PCT'', ''detail.jsf?docId=WO2019028689'',
                  ''detail.jsf?docId=WO2022049075'', ''result.jsf?docId=WO'']) 1 =
      Inr [''WO2022049075'']"
    by code_simp
  have e1: "listing_tokens (listing_of [''WO/2022/049075'', ''WO/2019/028689'']) =
      [''WO2022049075'', ''WO2019028689'']"
    by code_simp
  have e2: "processed_candidates scenario_world ''darolutamide'' 1 = [''WO2022049075'']"
    by code_simp
  have e3: "get_wo_list_httpx scenario_world ''darolutamide'' = [''WO2022049075'', ''WO2019028689'']"
    by code_simp
  have e4: "\<not> keeps_first [''WO2022049075'', ''WO2019028689''] [''WO2019028689'']"
    by code_simp
  note T = candidate_list [of scenario_world "''darolutamide''" 1
      "listing_of [''WO/2022/049075'', ''WO/2019/028689'']"
      "[''detail.jsf?docId=WO2022049075&tab=PCT'', ''detail.jsf?docId=WO2019028689'',
        ''detail.jsf?docId=WO2022049075'', ''result.jsf?docId=WO'']" 1
      "[''WO2022049075'']"]
  from T h2 have p1: "processed_candidates scenario_world ''darolutamide'' 1 =
        take (nat 1) (get_wo_list_httpx scenario_world ''darolutamide'')"
    by blast
  from T h1 have p2: "first_seen_order
        (listing_tokens (listing_of [''WO/2022/049075'', ''WO/2019/028689'']))
        (processed_candidates scenario_world ''darolutamide'' 1)"
    and p3: "keeps_first (listing_tokens (listing_of [''WO/2022/049075'', ''WO/2019/028689'']))
        (processed_candidates scenario_world ''darolutamide'' 1)"
    by blast+
  from T h3 have p4: "keeps_first
        (List.map_filter docid_search
           [''detail.jsf?docId=WO2022049075&tab=PCT'', ''detail.jsf?docId=WO2019028689'',
            ''detail.jsf?docId=WO2022049075'', ''result.jsf?docId=WO''])
        [''WO2022049075'']"
    and p5: "list_all normalized [''WO2022049075'']"
    by blast+
  from p2 p3 have p2': "first_seen_order [''WO2022049075'', ''WO2019028689'']
        (processed_candidates scenario_world ''darolutamide'' 1)"
    and p3': "keeps_first [''WO2022049075'', ''WO2019028689'']
        (processed_candidates scenario_world ''darolutamide'' 1)"
    by (simp_all only: e1)
  from h1 e1 e3 e2 p1 p2' p3' e4 h3 p4 p5 show ?thesis
    by (intro conjI)
qed

section \<open>The tiers\<close>

lemma trace_log_event [simp]: "trace (log_event e st) = trace st @ [e]"
  by (simp add: log_event_def)

lemma stats_log_event [simp]: "stats (log_event e st) = stats st"
  by (simp add: log_event_def)

lemma trace_count [simp]:
  "trace (count_static st) = trace st" "trace (count_direct st) = trace st"
  "trace (count_failure st) = trace st"
  by (simp_all add: count_static_def count_direct_def count_failure_def)

lemma static_state: "snd (extract_static_httpx cr w wo st) = log_event (Get wo) st"
  by (simp add: extract_static_httpx_def Let_def split: http_result.splits)

lemma static_any_state:
  "fst (extract_static_httpx cr w wo st) = fst (extract_static_httpx cr w wo st')"
  by (simp add: extract_static_httpx_def Let_def split: http_result.splits)

lemma direct_state: "snd (extract_direct_playwright cr w wo st) = log_event (Goto wo) st"
  by (simp add: extract_direct_playwright_def Let_def split: nav_result.splits)

lemma direct_any_state:
  "fst (extract_direct_playwright cr w wo st) = fst (extract_direct_playwright cr w wo st')"
  by (simp add: extract_direct_playwright_def Let_def split: nav_result.splits)

lemma static_success:
  assumes "fst (extract_static_httpx cr w wo st) = Inr p"
  shows "\<exists>pg. http_get w wo = HttpResponse 200 pg \<and>
           p = \<lparr>wo_number = wo, source_tag = ''WIPO'', extraction_method = ''static_httpx'',
                biblio_data = parse_biblio_robust (groq_api_key cr) pg\<rparr> \<and>
           \<not> title_invalid (parse_biblio_robust (groq_api_key cr) pg)"
  using assms
  by (auto simp: extract_static_httpx_def Let_def split: http_result.splits if_splits)

lemma direct_success:
  assumes "fst (extract_direct_playwright cr w wo st) = Inr p"
  shows "\<exists>pg. page_goto w wo = Rendered pg \<and>
           p = \<lparr>wo_number = wo, source_tag = ''WIPO'', extraction_method = ''direct_playwright'',
                biblio_data = parse_biblio_robust (groq_api_key cr) pg\<rparr> \<and>
           \<not> title_invalid (parse_biblio_robust (groq_api_key cr) pg)"
  using assms
  by (auto simp: extract_direct_playwright_def Let_def split: nav_result.splits if_splits)

text \<open>The tiered extraction, one case per way it can go.\<close>

lemma tiered_cases:
  obtains
    (static) p where "fst (extract_static_httpx cr w wo st) = Inr p"
      "extract_patent_tiered cr w wo st = (Inr p, count_static (log_event (Get wo) st))"
  | (static_other) m where "fst (extract_static_httpx cr w wo st) = Inl (OtherException m)"
      "extract_patent_tiered cr w wo st = (Inl (OtherException m), log_event (Get wo) st)"
  | (no_playwright) m where "fst (extract_static_httpx cr w wo st) = Inl (WIPOExtractionError m)"
      "\<not> use_playwright cr"
      "extract_patent_tiered cr w wo st = (Inl (all_tiers_failed wo), log_event (Get wo) st)"
  | (direct) m p where "fst (extract_static_httpx cr w wo st) = Inl (WIPOExtractionError m)"
      "use_playwright cr"
      "fst (extract_direct_playwright cr w wo (log_event (Get wo) st)) = Inr p"
      "extract_patent_tiered cr w wo st =
         (Inr p, count_direct (log_event (Goto wo) (log_event (Get wo) st)))"
  | (direct_other) m m2 where "fst (extract_static_httpx cr w wo st) = Inl (WIPOExtractionError m)"
      "use_playwright cr"
      "fst (extract_direct_playwright cr w wo (log_event (Get wo) st)) = Inl (OtherException m2)"
      "extract_patent_tiered cr w wo st =
         (Inl (OtherException m2), log_event (Goto wo) (log_event (Get wo) st))"
  | (exhausted) m m2 where "fst (extract_static_httpx cr w wo st) = Inl (WIPOExtractionError m)"
      "use_playwright cr"
      "fst (extract_direct_playwright cr w wo (log_event (Get wo) st)) = Inl (WIPOExtractionError m2)"
      "extract_patent_tiered cr w wo st =
         (Inl (all_tiers_failed wo), log_event (Goto wo) (log_event (Get wo) st))"
proof -
  obtain r1 s1 where e1: "extract_static_httpx cr w wo st = (r1, s1)"
    by (cases "extract_static_httpx cr w wo st")
  with static_state [of cr w wo st] have s1: "s1 = log_event (Get wo) st"
    by simp
  obtain r2 s2 where e2: "extract_direct_playwright cr w wo s1 = (r2, s2)"
    by (cases "extract_direct_playwright cr w wo s1")
  with direct_state [of cr w wo s1] have s2: "s2 = log_event (Goto wo) s1"
    by simp
  show thesis
  proof (cases r1)
    case (Inr p)
    with e1 s1 show thesis
      by (intro static [of p]) (simp_all add: extract_patent_tiered_def)
  next
    case (Inl e)
    show thesis
    proof (cases e)
      case (OtherException m)
      with Inl e1 s1 show thesis
        by (intro static_other [of m]) (simp_all add: extract_patent_tiered_def)
    next
      case (WIPOExtractionError m)
      show thesis
      proof (cases "use_playwright cr")
        case False
        with WIPOExtractionError Inl e1 s1 show thesis
          by (intro no_playwright [of m]) (simp_all add: extract_patent_tiered_def)
      next
        case True
        show thesis
        proof (cases r2)
          case (Inr p)
          with True WIPOExtractionError Inl e1 s1 e2 s2 show thesis
            by (intro direct [of m p]) (simp_all add: extract_patent_tiered_def)
        next
          case i2: (Inl e')
          show thesis
          proof (cases e')
            case o: (OtherException m2)
            with i2 True WIPOExtractionError Inl e1 s1 e2 s2 show thesis
              by (intro direct_other [of m m2]) (simp_all add: extract_patent_tiered_def)
          next
            case x: (WIPOExtractionError m2)
            with i2 True WIPOExtractionError Inl e1 s1 e2 s2 show thesis
              by (intro exhausted [of m m2]) (simp_all add: extract_patent_tiered_def)
          qed
        qed
      qed
    qed
  qed
qed

lemma tiered_fst:
  "fst (extract_patent_tiered cr w wo st) =
     (case fst (extract_static_httpx cr w wo st) of
        Inr p \<Rightarrow> Inr p
      | Inl (OtherException m) \<Rightarrow> Inl (OtherException m)
      | Inl (WIPOExtractionError m) \<Rightarrow>
          if use_playwright cr then
            (case fst (extract_direct_playwright cr w wo start_state) of
               Inr p \<Rightarrow> Inr p
             | Inl (OtherException m2) \<Rightarrow> Inl (OtherException m2)
             | Inl (WIPOExtractionError m2) \<Rightarrow> Inl (all_tiers_failed wo))
          else Inl (all_tiers_failed wo))"
  by (cases rule: tiered_cases [of cr w wo st])
    (simp_all add: direct_any_state [of cr w wo "log_event (Get wo) st" start_state])

lemma tiers_result_any_state: "fst (extract_patent_tiered cr w wo st) = tiers_result cr w wo"
  unfolding tiers_result_def tiered_fst
  by (simp add: static_any_state [of cr w wo st start_state])

lemma tiered_trace:
  "trace (snd (extract_patent_tiered cr w wo st)) = trace st @ [Get wo] \<or>
   trace (snd (extract_patent_tiered cr w wo st)) = trace st @ [Get wo, Goto wo]"
  by (cases rule: tiered_cases [of cr w wo st]) simp_all

lemma tiered_stats_failed:
  "isl (fst (extract_patent_tiered cr w wo st)) \<Longrightarrow>
     stats (snd (extract_patent_tiered cr w wo st)) = stats st"
  by (cases rule: tiered_cases [of cr w wo st]) simp_all

lemma tiered_stats_success:
  assumes "\<not> isl (fst (extract_patent_tiered cr w wo st))"
  shows "failures (stats (snd (extract_patent_tiered cr w wo st))) = failures (stats st) \<and>
         interactive_success (stats (snd (extract_patent_tiered cr w wo st))) =
           interactive_success (stats st) \<and>
         static_success (stats (snd (extract_patent_tiered cr w wo st))) +
           direct_success (stats (snd (extract_patent_tiered cr w wo st))) =
           static_success (stats st) + direct_success (stats st) + 1"
  using assms
  by (cases rule: tiered_cases [of cr w wo st])
    (simp_all add: count_static_def count_direct_def)

lemma tiered_success:
  assumes "tiers_result cr w wo = Inr p"
  shows "wo_number p = wo \<and> \<not> title_invalid (biblio_data p) \<and>
         (\<exists>pg. (http_get w wo = HttpResponse 200 pg \<or> page_goto w wo = Rendered pg) \<and>
               biblio_data p = parse_biblio_robust (groq_api_key cr) pg)"
proof -
  from assms have r: "fst (extract_patent_tiered cr w wo start_state) = Inr p"
    by (simp add: tiers_result_def)
  show ?thesis
  proof (cases rule: tiered_cases [of cr w wo start_state])
    case (static q)
    with r have "q = p" by simp
    with static(1) static_success [of cr w wo start_state p] show ?thesis
      by auto
  next
    case (direct m q)
    with r have "q = p" by simp
    with direct(3) direct_success [of cr w wo "log_event (Get wo) start_state" p] show ?thesis
      by auto
  qed (use r in simp_all)
qed

text \<open>The callback call of one pass.\<close>

lemma report_progress_fst:
  "fst (report_progress rnd cb n_total idx st) = fst (report_progress rnd cb n_total idx st')"
  by (simp add: report_progress_def Let_def split: option.splits cb_result.splits)

lemma report_progress_stats [simp]:
  "stats (snd (report_progress rnd cb n_total idx st)) = stats st"
  by (simp add: report_progress_def Let_def split: option.splits cb_result.splits)

lemma report_progress_trace:
  "trace (snd (report_progress rnd cb n_total idx st)) =
     trace st @
       (case cb of
          None \<Rightarrow> []
        | Some f \<Rightarrow>
            if idx mod 5 = 0 \<and> n_total \<noteq> 0
            then [Progress (progress_percent rnd idx n_total) (progress_message idx n_total)]
            else [])"
  by (simp add: report_progress_def Let_def split: option.splits cb_result.splits)

lemma try_body_fst:
  "fst (try_body rnd cr w cb n_total idx wo st) = step_result rnd cr w cb n_total (idx, wo)"
proof -
  have "fst (try_body rnd cr w cb n_total idx wo s) =
     (case fst (report_progress rnd cb n_total idx start_state) of
        Some e \<Rightarrow> Inl e | None \<Rightarrow> tiers_result cr w wo)" for s
    using report_progress_fst [of rnd cb n_total idx s start_state]
    by (auto simp: try_body_def tiers_result_any_state split: prod.splits option.splits)
  then show ?thesis
    by (simp add: step_result_def)
qed

lemma step_result_eq:
  "step_result rnd cr w cb n_total (idx, wo) =
     (case fst (report_progress rnd cb n_total idx start_state) of
        Some e \<Rightarrow> Inl e | None \<Rightarrow> tiers_result cr w wo)"
  using report_progress_fst [of rnd cb n_total idx start_state start_state]
  by (auto simp: step_result_def try_body_def tiers_result_any_state
      split: prod.splits option.splits)

lemma try_body_stats_failed:
  "isl (step_result rnd cr w cb n_total (idx, wo)) \<Longrightarrow>
     stats (snd (try_body rnd cr w cb n_total idx wo st)) = stats st"
proof -
  assume a: "isl (step_result rnd cr w cb n_total (idx, wo))"
  obtain e s1 where rp: "report_progress rnd cb n_total idx st = (e, s1)"
    by (cases "report_progress rnd cb n_total idx st")
  with report_progress_stats [of rnd cb n_total idx st] have s1: "stats s1 = stats st"
    by simp
  show ?thesis
  proof (cases e)
    case (Some x)
    with rp s1 show ?thesis by (simp add: try_body_def)
  next
    case None
    with rp have tb: "try_body rnd cr w cb n_total idx wo st = extract_patent_tiered cr w wo s1"
      by (simp add: try_body_def)
    from a have "isl (fst (try_body rnd cr w cb n_total idx wo st))"
      by (simp add: try_body_fst)
    with tb have "isl (fst (extract_patent_tiered cr w wo s1))" by simp
    from tiered_stats_failed [OF this] tb s1 show ?thesis by simp
  qed
qed

lemma try_body_stats_success:
  assumes "\<not> isl (step_result rnd cr w cb n_total (idx, wo))"
  shows "failures (stats (snd (try_body rnd cr w cb n_total idx wo st))) = failures (stats st) \<and>
         interactive_success (stats (snd (try_body rnd cr w cb n_total idx wo st))) =
           interactive_success (stats st) \<and>
         static_success (stats (snd (try_body rnd cr w cb n_total idx wo st))) +
           direct_success (stats (snd (try_body rnd cr w cb n_total idx wo st))) =
           static_success (stats st) + direct_success (stats st) + 1"
proof -
  obtain e s1 where rp: "report_progress rnd cb n_total idx st = (e, s1)"
    by (cases "report_progress rnd cb n_total idx st")
  with report_progress_stats [of rnd cb n_total idx st] have s1: "stats s1 = stats st"
    by simp
  from assms have n: "\<not> isl (fst (try_body rnd cr w cb n_total idx wo st))"
    by (simp add: try_body_fst)
  show ?thesis
  proof (cases e)
    case (Some x)
    with rp n show ?thesis by (simp add: try_body_def)
  next
    case None
    with rp have tb: "try_body rnd cr w cb n_total idx wo st = extract_patent_tiered cr w wo s1"
      by (simp add: try_body_def)
    with n have "\<not> isl (fst (extract_patent_tiered cr w wo s1))" by simp
    from tiered_stats_success [OF this] tb s1 show ?thesis by simp
  qed
qed

lemma try_body_trace:
  "\<exists>ts. trace (snd (try_body rnd cr w cb n_total idx wo st)) =
          trace st @
            (case cb of
               None \<Rightarrow> []
             | Some f \<Rightarrow>
                 if idx mod 5 = 0 \<and> n_total \<noteq> 0
                 then [Progress (progress_percent rnd idx n_total) (progress_message idx n_total)]
                 else []) @ ts
        \<and> (ts = [] \<or> ts = [Get wo] \<or> ts = [Get wo, Goto wo])"
proof -
  obtain e s1 where rp: "report_progress rnd cb n_total idx st = (e, s1)"
    by (cases "report_progress rnd cb n_total idx st")
  with report_progress_trace [of rnd cb n_total idx st]
  have s1: "trace s1 = trace st @
       (case cb of
          None \<Rightarrow> []
        | Some f \<Rightarrow>
            if idx mod 5 = 0 \<and> n_total \<noteq> 0
            then [Progress (progress_percent rnd idx n_total) (progress_message idx n_total)]
            else [])"
    by simp
  show ?thesis
  proof (cases e)
    case (Some x)
    with rp s1 show ?thesis by (simp add: try_body_def)
  next
    case None
    with rp have tb: "try_body rnd cr w cb n_total idx wo st = extract_patent_tiered cr w wo s1"
      by (simp add: try_body_def)
    from tiered_trace [of cr w wo s1] tb s1 show ?thesis
      by auto
  qed
qed

section \<open>The loop\<close>

lemma process_loop_step:
  "process_loop rnd cr w cb n_total ((idx, wo) # rest) acc st =
     (if isl (step_result rnd cr w cb n_total (idx, wo))
      then process_loop rnd cr w cb n_total rest acc
             (count_failure (snd (try_body rnd cr w cb n_total idx wo st)))
      else process_loop rnd cr w cb n_total rest
             (acc @ [projr (step_result rnd cr w cb n_total (idx, wo))])
             (snd (try_body rnd cr w cb n_total idx wo st)))"
proof -
  obtain r s1 where tb: "try_body rnd cr w cb n_total idx wo st = (r, s1)"
    by (cases "try_body rnd cr w cb n_total idx wo st")
  with try_body_fst [of rnd cr w cb n_total idx wo st]
  have r: "step_result rnd cr w cb n_total (idx, wo) = r"
    by simp
  show ?thesis
    by (cases r) (simp_all add: tb r)
qed

lemma loop_results:
  "fst (process_loop rnd cr w cb n_total ios acc st) =
     acc @ map projr (filter (\<lambda>r. \<not> isl r) (map (step_result rnd cr w cb n_total) ios))"
proof (induction ios arbitrary: acc st)
  case Nil
  then show ?case by simp
next
  case (Cons iw ios)
  obtain idx wo where iw: "iw = (idx, wo)" by (cases iw)
  show ?case
    unfolding iw process_loop_step
    by (simp add: Cons.IH)
qed

lemma count_failure_stats [simp]:
  "failures (stats (count_failure st)) = failures (stats st) + 1"
  "static_success (stats (count_failure st)) = static_success (stats st)"
  "direct_success (stats (count_failure st)) = direct_success (stats st)"
  "interactive_success (stats (count_failure st)) = interactive_success (stats st)"
  by (simp_all add: count_failure_def)

lemma loop_stats:
  "failures (stats (snd (process_loop rnd cr w cb n_total ios acc st))) =
     failures (stats st) + int (length (filter isl (map (step_result rnd cr w cb n_total) ios)))
   \<and> interactive_success (stats (snd (process_loop rnd cr w cb n_total ios acc st))) =
       interactive_success (stats st)
   \<and> static_success (stats (snd (process_loop rnd cr w cb n_total ios acc st))) +
       direct_success (stats (snd (process_loop rnd cr w cb n_total ios acc st))) =
       static_success (stats st) + direct_success (stats st) +
       int (length (filter (\<lambda>r. \<not> isl r) (map (step_result rnd cr w cb n_total) ios)))"
proof (induction ios arbitrary: acc st)
  case Nil
  then show ?case by simp
next
  case (Cons iw ios)
  obtain idx wo where iw: "iw = (idx, wo)" by (cases iw)
  let ?s1 = "snd (try_body rnd cr w cb n_total idx wo st)"
  show ?case
  proof (cases "isl (step_result rnd cr w cb n_total (idx, wo))")
    case True
    from try_body_stats_failed [OF True, of st] have "stats ?s1 = stats st" .
    with True show ?thesis
      unfolding iw process_loop_step by (simp add: Cons.IH)
  next
    case False
    from try_body_stats_success [OF False, of st] False show ?thesis
      unfolding iw process_loop_step by (simp add: Cons.IH)
  qed
qed

text \<open>The events of one pass and of the whole loop.\<close>

lemma tier_events_pass_progress [simp]: "tier_events wo (pass_progress rnd cb n_total idx) = []"
  by (simp add: pass_progress_def tier_events_def split: option.splits)

lemma is_progress_pass_progress [simp]:
  "filter is_progress (pass_progress rnd cb n_total idx) = pass_progress rnd cb n_total idx"
  by (simp add: pass_progress_def is_progress_def split: option.splits)

lemma tier_events_append [simp]:
  "tier_events wo (xs @ ys) = tier_events wo xs @ tier_events wo ys"
  by (simp add: tier_events_def)

lemma pass_events:
  obtains ts where
    "trace (snd (try_body rnd cr w cb n_total idx wo st)) =
       trace st @ pass_progress rnd cb n_total idx @ ts"
    "ts = [] \<or> ts = [Get wo] \<or> ts = [Get wo, Goto wo]"
  using try_body_trace [of rnd cr w cb n_total idx wo st]
  unfolding pass_progress_def by blast

lemma loop_trace:
  "\<exists>evs. trace (snd (process_loop rnd cr w cb n_total ios acc st)) = trace st @ evs
     \<and> (\<forall>wo. wo \<notin> snd ` set ios \<longrightarrow> tier_events wo evs = [])
     \<and> (distinct (map snd ios) \<longrightarrow> (\<forall>wo. tiers_in_order wo evs))
     \<and> filter is_progress evs = concat (map (\<lambda>iw. pass_progress rnd cb n_total (fst iw)) ios)"
proof (induction ios arbitrary: acc st)
  case Nil
  then show ?case by (simp add: tiers_in_order_def tier_events_def)
next
  case (Cons iw ios)
  obtain idx wo where iw: "iw = (idx, wo)" by (cases iw)
  let ?s1 = "snd (try_body rnd cr w cb n_total idx wo st)"
  obtain ts where ts: "trace ?s1 = trace st @ pass_progress rnd cb n_total idx @ ts"
    and shape: "ts = [] \<or> ts = [Get wo] \<or> ts = [Get wo, Goto wo]"
    by (rule pass_events)
  let ?e1 = "pass_progress rnd cb n_total idx @ ts"
  from shape have own: "tier_events wo ts = ts"
    by (auto simp: tier_events_def)
  from shape have other: "tier_events wo' ts = []" if "wo' \<noteq> wo" for wo'
    using that by (auto simp: tier_events_def)
  from shape have noprog: "filter is_progress ts = []"
    by (auto simp: is_progress_def)
  obtain acc' s1' where next_call:
    "process_loop rnd cr w cb n_total (iw # ios) acc st = process_loop rnd cr w cb n_total ios acc' s1'"
    and tr1: "trace s1' = trace ?s1"
    unfolding iw process_loop_step by (cases "isl (step_result rnd cr w cb n_total (idx, wo))") auto
  from Cons.IH [of acc' s1'] obtain evs where
    e: "trace (snd (process_loop rnd cr w cb n_total ios acc' s1')) = trace s1' @ evs"
    and absent: "\<forall>wo. wo \<notin> snd ` set ios \<longrightarrow> tier_events wo evs = []"
    and order: "distinct (map snd ios) \<longrightarrow> (\<forall>wo. tiers_in_order wo evs)"
    and prog: "filter is_progress evs = concat (map (\<lambda>iw. pass_progress rnd cb n_total (fst iw)) ios)"
    by blast
  have 1: "trace (snd (process_loop rnd cr w cb n_total (iw # ios) acc st)) = trace st @ (?e1 @ evs)"
    by (simp add: next_call e tr1 ts)
  have 2: "tier_events wo' (?e1 @ evs) = []" if "wo' \<notin> snd ` set (iw # ios)" for wo'
  proof -
    from that have "wo' \<noteq> wo" "wo' \<notin> snd ` set ios"
      by (auto simp: iw)
    with other absent show ?thesis by simp
  qed
  have 3: "tiers_in_order wo' (?e1 @ evs)" if d: "distinct (map snd (iw # ios))" for wo'
  proof (cases "wo' = wo")
    case True
    from d have "wo \<notin> snd ` set ios" by (simp add: iw)
    with absent have "tier_events wo evs = []" by blast
    with own shape True show ?thesis
      by (auto simp: tiers_in_order_def)
  next
    case False
    from d order have "tiers_in_order wo' evs" by simp
    with other [OF False] show ?thesis
      by (simp add: tiers_in_order_def)
  qed
  have 4: "filter is_progress (?e1 @ evs) =
      concat (map (\<lambda>iw. pass_progress rnd cb n_total (fst iw)) (iw # ios))"
    by (simp add: noprog prog iw)
  from 1 2 3 4 show ?case
    by blast
qed

section \<open>The run\<close>

lemma first_callback_trace:
  "trace (snd (first_callback cb st)) =
     trace st @ (case cb of None \<Rightarrow> [] | Some f \<Rightarrow> [Progress 5 ''Getting WO list...''])"
  by (simp add: first_callback_def Let_def split: option.splits cb_result.splits)

lemma first_callback_stats [simp]: "stats (snd (first_callback cb st)) = stats st"
  by (simp add: first_callback_def Let_def split: option.splits cb_result.splits)

lemma first_callback_raises:
  "fst (first_callback cb st) \<noteq> None \<longleftrightarrow>
     (\<exists>f. cb = Some f \<and> f 5 ''Getting WO list...'' = Raises)"
  by (auto simp: first_callback_def Let_def split: option.splits cb_result.splits)

lemma search_wipo_raises:
  "fst (first_callback cb st) = Some e \<Longrightarrow>
     search_wipo rnd cr w query max_results cb st = (Inl e, snd (first_callback cb st))"
  by (cases "first_callback cb st") (simp add: search_wipo_def)

lemma run_passes_empty: "get_wo_list_httpx w query = [] \<Longrightarrow> run_passes w query max_results = []"
  by (simp add: run_passes_def processed_candidates_def slice_to_def enumerate_eq_zip)

lemma search_wipo_loop:
  assumes "fst (first_callback cb st) = None"
  shows "search_wipo rnd cr w query max_results cb st =
     (Inr (fst (process_loop rnd cr w cb (run_total w query max_results)
                  (run_passes w query max_results) [] (snd (first_callback cb st)))),
      snd (process_loop rnd cr w cb (run_total w query max_results)
                  (run_passes w query max_results) [] (snd (first_callback cb st))))"
proof (cases "get_wo_list_httpx w query = []")
  case True
  with assms show ?thesis
    by (cases "first_callback cb st") (simp add: search_wipo_def run_passes_empty)
next
  case False
  with assms show ?thesis
    by (cases "first_callback cb st")
      (simp add: search_wipo_def Let_def run_passes_def processed_candidates_def run_total_def
        split: prod.splits)
qed

lemma search_wipo_isl:
  "isl (fst (search_wipo rnd cr w query max_results cb st)) \<longleftrightarrow>
     (\<exists>f. cb = Some f \<and> f 5 ''Getting WO list...'' = Raises)"
proof (cases "fst (first_callback cb st)")
  case None
  from search_wipo_loop [OF None] None first_callback_raises [of cb st] show ?thesis
    by simp
next
  case (Some e)
  from search_wipo_raises [OF Some] Some first_callback_raises [of cb st] show ?thesis
    by simp
qed

lemma map_snd_run_passes:
  "map snd (run_passes w query max_results) = processed_candidates w query max_results"
  by (simp add: run_passes_def)

lemma snd_set_run_passes:
  "snd ` set (run_passes w query max_results) = set (processed_candidates w query max_results)"
  using map_snd_run_passes [of w query max_results] by (metis set_map)

lemma distinct_run_passes: "distinct (map snd (run_passes w query max_results))"
  by (simp add: map_snd_run_passes processed_candidates_def distinct_slice_to
      get_wo_list_httpx_distinct)

lemma step_result_success:
  "step_result rnd cr w cb n_total (idx, wo) = Inr p \<Longrightarrow> tiers_result cr w wo = Inr p"
  by (simp add: step_result_eq split: option.splits)

lemma step_result_failed:
  "isl (tiers_result cr w wo) \<Longrightarrow> isl (step_result rnd cr w cb n_total (idx, wo))"
  by (simp add: step_result_eq split: option.splits)

lemma step_result_no_callback: "step_result rnd cr w None n_total (idx, wo) = tiers_result cr w wo"
  by (simp add: step_result_eq report_progress_def)

lemma search_wipo_results:
  assumes "search_wipo rnd cr w query max_results cb st = (Inr ps, st')"
  shows "ps = map projr (filter (\<lambda>r. \<not> isl r) (run_outcomes rnd cr w query max_results cb))"
    and "st' = snd (process_loop rnd cr w cb (run_total w query max_results)
                  (run_passes w query max_results) [] (snd (first_callback cb st)))"
proof -
  from assms have "\<not> isl (fst (search_wipo rnd cr w query max_results cb st))"
    by simp
  then have n: "fst (first_callback cb st) = None"
    using search_wipo_isl [of rnd cr w query max_results cb st] first_callback_raises [of cb st]
    by auto
  from search_wipo_loop [OF n, of rnd cr w query max_results] assms
  show "ps = map projr (filter (\<lambda>r. \<not> isl r) (run_outcomes rnd cr w query max_results cb))"
    and "st' = snd (process_loop rnd cr w cb (run_total w query max_results)
                  (run_passes w query max_results) [] (snd (first_callback cb st)))"
    by (simp_all add: loop_results run_outcomes_def)
qed

lemma emitted_record:
  assumes "search_wipo rnd cr w query max_results cb st = (Inr ps, st')" and "p \<in> set ps"
  shows "wo_number p \<in> set (processed_candidates w query max_results) \<and>
         tiers_result cr w (wo_number p) = Inr p"
proof -
  from search_wipo_results(1) [OF assms(1)] assms(2)
  obtain iw where iw: "iw \<in> set (run_passes w query max_results)"
    and r: "step_result rnd cr w cb (run_total w query max_results) iw = Inr p"
    by (auto simp: run_outcomes_def)
  obtain idx wo where eq: "iw = (idx, wo)" by (cases iw)
  from r eq have t: "tiers_result cr w wo = Inr p"
    by (auto dest: step_result_success)
  with tiered_success [OF t] have wo: "wo_number p = wo" by simp
  from iw eq have "wo \<in> snd ` set (run_passes w query max_results)"
    by force
  with wo t show ?thesis
    by (simp add: snd_set_run_passes)
qed

lemma parse_title_source:
  "parse_title key pg = label_title pg \<or>
   (\<exists>c. groq_service pg ''patent title'' = GroqContent c \<and> parse_title key pg = strip c)"
  by (auto simp: parse_title_def groq_extract_field_def Let_def
      split: option.splits groq_reply.splits if_splits)

lemma title_parse_biblio_robust [simp]: "title (parse_biblio_robust key pg) = parse_title key pg"
  by (simp add: parse_biblio_robust_def)

text \<open>
  C3: for every identifier the tiers are called in strictly ascending order, each at most
  once. One call of \<open>_extract_patent_tiered\<close> adds to the trace the GET of tier 1 alone,
  or that GET and then the navigation of tier 2, never a request of tier 1 after one of
  tier 2; when tier 1 succeeds nothing follows it and its result is the result. Over a
  whole run of \<open>search_wipo\<close>, the requests made for any one identifier are none, the GET
  alone, or the GET and then the navigation.
\<close>

theorem tier_escalation:
  "(\<exists>ts. trace (snd (extract_patent_tiered cr w wo st)) = trace st @ ts
        \<and> (ts = [Get wo] \<or> ts = [Get wo, Goto wo])
        \<and> sorted_wrt (<) (map tier_of ts) \<and> distinct (map tier_of ts)
        \<and> (\<not> isl (fst (extract_static_httpx cr w wo st)) \<longrightarrow>
             ts = [Get wo] \<and>
             fst (extract_patent_tiered cr w wo st) = fst (extract_static_httpx cr w wo st)))
   \<and> (\<exists>evs. trace (snd (search_wipo rnd cr w query max_results cb st)) = trace st @ evs
          \<and> (\<forall>wo'. tiers_in_order wo' evs))"
proof -
  have a: "\<exists>ts. trace (snd (extract_patent_tiered cr w wo st)) = trace st @ ts
        \<and> (ts = [Get wo] \<or> ts = [Get wo, Goto wo])
        \<and> sorted_wrt (<) (map tier_of ts) \<and> distinct (map tier_of ts)
        \<and> (\<not> isl (fst (extract_static_httpx cr w wo st)) \<longrightarrow>
             ts = [Get wo] \<and>
             fst (extract_patent_tiered cr w wo st) = fst (extract_static_httpx cr w wo st))"
  proof (cases rule: tiered_cases [of cr w wo st])
    case (static p)
    then have "trace (snd (extract_patent_tiered cr w wo st)) = trace st @ [Get wo]"
      by simp
    with static show ?thesis
      by (intro exI [of _ "[Get wo]"]) (simp add: tier_of_def)
  next
    case (static_other m)
    then show ?thesis
      by (intro exI [of _ "[Get wo]"]) (simp add: tier_of_def)
  next
    case (no_playwright m)
    then show ?thesis
      by (intro exI [of _ "[Get wo]"]) (simp add: tier_of_def)
  next
    case (direct m p)
    then show ?thesis
      by (intro exI [of _ "[Get wo, Goto wo]"]) (simp add: tier_of_def)
  next
    case (direct_other m m2)
    then show ?thesis
      by (intro exI [of _ "[Get wo, Goto wo]"]) (simp add: tier_of_def)
  next
    case (exhausted m m2)
    then show ?thesis
      by (intro exI [of _ "[Get wo, Goto wo]"]) (simp add: tier_of_def)
  qed
  have b: "\<exists>evs. trace (snd (search_wipo rnd cr w query max_results cb st)) = trace st @ evs
          \<and> (\<forall>wo'. tiers_in_order wo' evs)"
  proof (cases "fst (first_callback cb st)")
    case (Some e)
    let ?e0 = "case cb of None \<Rightarrow> [] | Some f \<Rightarrow> [Progress 5 ''Getting WO list...'']"
    have "tiers_in_order wo' ?e0" for wo'
      by (simp add: tiers_in_order_def tier_events_def split: option.splits)
    with search_wipo_raises [OF Some, of rnd cr w query max_results]
      first_callback_trace [of cb st]
    show ?thesis
      by auto
  next
    case None
    let ?e0 = "case cb of None \<Rightarrow> [] | Some f \<Rightarrow> [Progress 5 ''Getting WO list...'']"
    let ?s0 = "snd (first_callback cb st)"
    have e0: "tier_events wo' ?e0 = []" for wo'
      by (simp add: tier_events_def split: option.splits)
    from loop_trace [of rnd cr w cb "run_total w query max_results"
        "run_passes w query max_results" "[]" ?s0] distinct_run_passes [of w query max_results]
    obtain evs where
      t: "trace (snd (process_loop rnd cr w cb (run_total w query max_results)
            (run_passes w query max_results) [] ?s0)) = trace ?s0 @ evs"
      and o: "\<forall>wo'. tiers_in_order wo' evs"
      by blast
    from o e0 have "tiers_in_order wo' (?e0 @ evs)" for wo'
      by (simp add: tiers_in_order_def)
    moreover from t search_wipo_loop [OF None, of rnd cr w query max_results]
      first_callback_trace [of cb st]
    have "trace (snd (search_wipo rnd cr w query max_results cb st)) = trace st @ (?e0 @ evs)"
      by simp
    ultimately show ?thesis
      by blast
  qed
  from a b show ?thesis
    by blast
qed

theorem tier_escalation_witness:
  "\<not> isl (fst (extract_static_httpx plain_crawler escalating_world ''WO2019028689'' start_state))
   \<and> trace (snd (extract_patent_tiered plain_crawler escalating_world ''WO2019028689'' start_state))
       = [Get ''WO2019028689'']
   \<and> trace (snd (extract_patent_tiered plain_crawler escalating_world ''WO2022049075'' start_state))
       = [Get ''WO2022049075'', Goto ''WO2022049075'']
   \<and> trace (snd (search_wipo id plain_crawler escalating_world ''darolutamide'' 50 None start_state))
       = [Get ''WO2022049075'', Goto ''WO2022049075'', Get ''WO2019028689'',
          Get ''WO2020000001'', Goto ''WO2020000001'']
   \<and> tiers_in_order ''WO2022049075''
        (trace (snd (search_wipo id plain_crawler escalating_world ''darolutamide'' 50 None
           start_state)))"
proof -
  have h: "\<not> isl (fst (extract_static_httpx plain_crawler escalating_world ''WO2019028689''
      start_state))"
    by code_simp
  have e1: "trace (snd (extract_patent_tiered plain_crawler escalating_world ''WO2022049075''
      start_state)) = [Get ''WO2022049075'', Goto ''WO2022049075'']"
    by code_simp
  have e2: "trace (snd (search_wipo id plain_crawler escalating_world ''darolutamide'' 50 None
      start_state)) = [Get ''WO2022049075'', Goto ''WO2022049075'', Get ''WO2019028689'',
          Get ''WO2020000001'', Goto ''WO2020000001'']"
    by code_simp
  have t0: "trace start_state = []"
    by (simp add: start_state_def)
  from h e1 e2 t0
    tier_escalation [of plain_crawler escalating_world "''WO2019028689''" start_state id
      "''darolutamide''" 50 None]
  show ?thesis
    by auto
qed

lemma length_run_outcomes:
  "length (run_outcomes rnd cr w query max_results cb) =
     length (processed_candidates w query max_results)"
  by (simp add: run_outcomes_def run_passes_def)

lemma run_outcomes_no_callback:
  "run_outcomes rnd cr w query max_results None =
     map (tiers_result cr w) (processed_candidates w query max_results)"
proof -
  have "step_result rnd cr w None n iw = tiers_result cr w (snd iw)" for n iw
    by (cases iw) (simp add: step_result_no_callback)
  then have "run_outcomes rnd cr w query max_results None =
      map (tiers_result cr w) (map snd (run_passes w query max_results))"
    by (simp add: run_outcomes_def comp_def)
  then show ?thesis
    by (simp add: map_snd_run_passes)
qed

lemma search_wipo_stats:
  assumes "fst (search_wipo rnd cr w query max_results cb st) = Inr ps"
  shows "failures (stats (snd (search_wipo rnd cr w query max_results cb st))) =
           failures (stats st) + int (length (filter isl (run_outcomes rnd cr w query max_results cb)))"
proof -
  from assms have "search_wipo rnd cr w query max_results cb st =
      (Inr ps, snd (search_wipo rnd cr w query max_results cb st))"
    by (metis prod.collapse)
  from search_wipo_results(2) [OF this] show ?thesis
    by (simp add: loop_stats run_outcomes_def)
qed

lemma search_wipo_records:
  assumes "fst (search_wipo rnd cr w query max_results cb st) = Inr ps"
  shows "ps = map projr (filter (\<lambda>r. \<not> isl r) (run_outcomes rnd cr w query max_results cb))"
proof -
  from assms have "search_wipo rnd cr w query max_results cb st =
      (Inr ps, snd (search_wipo rnd cr w query max_results cb st))"
    by (metis prod.collapse)
  from search_wipo_results(1) [OF this] show ?thesis .
qed

lemma failed_not_emitted:
  assumes "fst (search_wipo rnd cr w query max_results cb st) = Inr ps"
    and "isl (tiers_result cr w wo)"
  shows "wo \<notin> wo_number ` set ps"
proof
  assume "wo \<in> wo_number ` set ps"
  then obtain p where p: "p \<in> set ps" "wo_number p = wo"
    by auto
  from assms(1) have "search_wipo rnd cr w query max_results cb st =
      (Inr ps, snd (search_wipo rnd cr w query max_results cb st))"
    by (metis prod.collapse)
  from emitted_record [OF this p(1)] p(2) have "tiers_result cr w wo = Inr p"
    by simp
  with assms(2) show False
    by simp
qed

text \<open>
  C2: every record \<open>search_wipo\<close> returns has a title that is present and passes the
  validator; the title is the structural value of the document fetched for the record's
  identifier (by the GET of tier 1 or the navigation of tier 2), or the trimmed reply of
  the semantic fallback for that document; the record's identifier is one of the
  candidates. An identifier for which the tiers fail has no record in the result.
\<close>

theorem emitted_records_validated:
  assumes "fst (search_wipo rnd cr w query max_results cb st) = Inr ps"
  shows "(\<forall>p\<in>set ps.
            title (biblio_data p) \<noteq> [] \<and> \<not> looks_wrong (title (biblio_data p)) ''title''
          \<and> wo_number p \<in> set (processed_candidates w query max_results)
          \<and> (\<exists>pg. (http_get w (wo_number p) = HttpResponse 200 pg \<or>
                    page_goto w (wo_number p) = Rendered pg)
                 \<and> (title (biblio_data p) = label_title pg \<or>
                    (\<exists>c. groq_service pg ''patent title'' = GroqContent c \<and>
                         title (biblio_data p) = strip c))))
         \<and> (\<forall>wo. isl (tiers_result cr w wo) \<longrightarrow> wo \<notin> wo_number ` set ps)"
proof -
  from assms have s: "search_wipo rnd cr w query max_results cb st =
      (Inr ps, snd (search_wipo rnd cr w query max_results cb st))"
    by (metis prod.collapse)
  have a: "title (biblio_data p) \<noteq> [] \<and> \<not> looks_wrong (title (biblio_data p)) ''title''
          \<and> wo_number p \<in> set (processed_candidates w query max_results)
          \<and> (\<exists>pg. (http_get w (wo_number p) = HttpResponse 200 pg \<or>
                    page_goto w (wo_number p) = Rendered pg)
                 \<and> (title (biblio_data p) = label_title pg \<or>
                    (\<exists>c. groq_service pg ''patent title'' = GroqContent c \<and>
                         title (biblio_data p) = strip c)))"
    if p: "p \<in> set ps" for p
  proof -
    from emitted_record [OF s p]
    have c: "wo_number p \<in> set (processed_candidates w query max_results)"
      and t: "tiers_result cr w (wo_number p) = Inr p"
      by simp_all
    from tiered_success [OF t] obtain pg where
      v: "\<not> title_invalid (biblio_data p)"
      and pg: "http_get w (wo_number p) = HttpResponse 200 pg \<or>
               page_goto w (wo_number p) = Rendered pg"
      and b: "biblio_data p = parse_biblio_robust (groq_api_key cr) pg"
      by blast
    from b have "title (biblio_data p) = parse_title (groq_api_key cr) pg"
      by simp
    with parse_title_source [of "groq_api_key cr" pg]
    have "title (biblio_data p) = label_title pg \<or>
          (\<exists>c. groq_service pg ''patent title'' = GroqContent c \<and> title (biblio_data p) = strip c)"
      by simp
    with v c pg show ?thesis
      by (auto simp: title_invalid_def)
  qed
  from a failed_not_emitted [OF assms] show ?thesis
    by blast
qed

theorem emitted_records_validated_witness:
  "\<not> isl (fst (search_wipo id plain_crawler escalating_world ''darolutamide'' 50 None start_state))
   \<and> map wo_number
       (projr (fst (search_wipo id plain_crawler escalating_world ''darolutamide'' 50 None
          start_state))) = [''WO2022049075'', ''WO2019028689'']
   \<and> map (\<lambda>p. title (biblio_data p))
       (projr (fst (search_wipo id plain_crawler escalating_world ''darolutamide'' 50 None
          start_state))) = [''Androgen receptor antagonists'', ''Crystalline forms of darolutamide'']
   \<and> list_all (\<lambda>p. \<not> looks_wrong (title (biblio_data p)) ''title'')
       (projr (fst (search_wipo id plain_crawler escalating_world ''darolutamide'' 50 None
          start_state)))
   \<and> isl (tiers_result plain_crawler escalating_world ''WO2020000001'')
   \<and> ''WO2020000001'' \<notin> wo_number ` set
       (projr (fst (search_wipo id plain_crawler escalating_world ''darolutamide'' 50 None
          start_state)))"
proof -
  let ?S = "search_wipo id plain_crawler escalating_world ''darolutamide'' 50 None start_state"
  have n: "\<not> isl (fst ?S)"
    by code_simp
  then have h: "fst ?S = Inr (projr (fst ?S))"
    by simp
  have e1: "map wo_number (projr (fst ?S)) = [''WO2022049075'', ''WO2019028689'']"
    by code_simp
  have e2: "map (\<lambda>p. title (biblio_data p)) (projr (fst ?S)) =
      [''Androgen receptor antagonists'', ''Crystalline forms of darolutamide'']"
    by code_simp
  have e3: "isl (tiers_result plain_crawler escalating_world ''WO2020000001'')"
    by code_simp
  from emitted_records_validated [OF h] n e1 e2 e3 show ?thesis
    by (simp add: list_all_iff)
qed

text \<open>
  C4: \<open>search_wipo\<close> raises only when the initial call of the callback raises, never
  because of an identifier. When it returns, the result holds the records of the passes
  that succeeded, in order; the failures counter has grown by the number of passes that
  failed, one each; every candidate was processed (records and failures add up to the
  number of candidates); and an identifier for which all tiers fail has no record. Without
  a callback a pass fails exactly when the tiers fail. Last conjunct, one pass: when all
  tiers fail for an identifier, the loop goes on with the next identifier, the records
  unchanged and the statistics changed by the one increment of \<open>failures\<close> alone.
\<close>

theorem failed_identifier_skipped:
  "(isl (fst (search_wipo rnd cr w query max_results cb st)) \<longleftrightarrow>
      (\<exists>f. cb = Some f \<and> f 5 ''Getting WO list...'' = Raises))
   \<and> (fst (search_wipo rnd cr w query max_results cb st) = Inr ps \<longrightarrow>
        ps = map projr (filter (\<lambda>r. \<not> isl r) (run_outcomes rnd cr w query max_results cb))
        \<and> failures (stats (snd (search_wipo rnd cr w query max_results cb st))) =
            failures (stats st) +
            int (length (filter isl (run_outcomes rnd cr w query max_results cb)))
        \<and> length ps + length (filter isl (run_outcomes rnd cr w query max_results cb)) =
            length (processed_candidates w query max_results)
        \<and> (\<forall>wo'. isl (tiers_result cr w wo') \<longrightarrow> wo' \<notin> wo_number ` set ps))
   \<and> run_outcomes rnd cr w query max_results None =
        map (tiers_result cr w) (processed_candidates w query max_results)
   \<and> (isl (tiers_result cr w wo) \<longrightarrow>
        process_loop rnd cr w cb n_total ((idx, wo) # rest) acc st =
          process_loop rnd cr w cb n_total rest acc
            (count_failure (snd (try_body rnd cr w cb n_total idx wo st)))
        \<and> stats (snd (try_body rnd cr w cb n_total idx wo st)) = stats st)"
proof -
  let ?out = "run_outcomes rnd cr w query max_results cb"
  have b: "ps = map projr (filter (\<lambda>r. \<not> isl r) ?out)
        \<and> failures (stats (snd (search_wipo rnd cr w query max_results cb st))) =
            failures (stats st) + int (length (filter isl ?out))
        \<and> length ps + length (filter isl ?out) =
            length (processed_candidates w query max_results)
        \<and> (\<forall>wo'. isl (tiers_result cr w wo') \<longrightarrow> wo' \<notin> wo_number ` set ps)"
    if h: "fst (search_wipo rnd cr w query max_results cb st) = Inr ps"
  proof -
    have r: "ps = map projr (filter (\<lambda>r. \<not> isl r) ?out)"
      by (rule search_wipo_records [OF h])
    have "length (filter (\<lambda>r. \<not> isl r) ?out) + length (filter isl ?out) = length ?out"
      using sum_length_filter_compl [of isl ?out] by simp
    with r have "length ps + length (filter isl ?out) =
        length (processed_candidates w query max_results)"
      by (simp add: length_run_outcomes)
    with r search_wipo_stats [OF h] failed_not_emitted [OF h] show ?thesis
      by blast
  qed
  have c: "process_loop rnd cr w cb n_total ((idx, wo) # rest) acc st =
          process_loop rnd cr w cb n_total rest acc
            (count_failure (snd (try_body rnd cr w cb n_total idx wo st)))
        \<and> stats (snd (try_body rnd cr w cb n_total idx wo st)) = stats st"
    if "isl (tiers_result cr w wo)"
  proof -
    from that have f: "isl (step_result rnd cr w cb n_total (idx, wo))"
      by (rule step_result_failed)
    have "process_loop rnd cr w cb n_total ((idx, wo) # rest) acc st =
          process_loop rnd cr w cb n_total rest acc
            (count_failure (snd (try_body rnd cr w cb n_total idx wo st)))"
      by (subst process_loop_step) (simp add: f)
    with try_body_stats_failed [OF f, of st] show ?thesis
      by blast
  qed
  from search_wipo_isl [of rnd cr w query max_results cb st] b c
    run_outcomes_no_callback [of rnd cr w query max_results]
  show ?thesis
    by blast
qed

theorem failed_identifier_skipped_witness:
  "isl (tiers_result plain_crawler escalating_world ''WO2020000001'')
   \<and> processed_candidates escalating_world ''darolutamide'' 50 =
       [''WO2022049075'', ''WO2019028689'', ''WO2020000001'']
   \<and> \<not> isl (fst (search_wipo id plain_crawler escalating_world ''darolutamide'' 50 None
          start_state))
   \<and> map wo_number
       (projr (fst (search_wipo id plain_crawler escalating_world ''darolutamide'' 50 None
          start_state))) = [''WO2022049075'', ''WO2019028689'']
   \<and> stats (snd (search_wipo id plain_crawler escalating_world ''darolutamide'' 50 None
          start_state)) =
       \<lparr>static_success = 1, direct_success = 1, interactive_success = 0, failures = 1\<rparr>
   \<and> failures (stats (snd (search_wipo id plain_crawler escalating_world ''darolutamide'' 50 None
          start_state))) =
       failures (stats start_state) +
       int (length (filter isl (run_outcomes id plain_crawler escalating_world ''darolutamide'' 50
          None)))"
proof -
  let ?S = "search_wipo id plain_crawler escalating_world ''darolutamide'' 50 None start_state"
  have h1: "isl (tiers_result plain_crawler escalating_world ''WO2020000001'')"
    by code_simp
  have n: "\<not> isl (fst ?S)"
    by code_simp
  then have h2: "fst ?S = Inr (projr (fst ?S))"
    by simp
  have e1: "processed_candidates escalating_world ''darolutamide'' 50 =
       [''WO2022049075'', ''WO2019028689'', ''WO2020000001'']"
    by code_simp
  have e2: "map wo_number (projr (fst ?S)) = [''WO2022049075'', ''WO2019028689'']"
    by code_simp
  have e3: "stats (snd ?S) =
       \<lparr>static_success = 1, direct_success = 1, interactive_success = 0, failures = 1\<rparr>"
    by code_simp
  note T = failed_identifier_skipped [of id plain_crawler escalating_world "''darolutamide''" 50
      None start_state "projr (fst ?S)" "''WO2020000001''" 3 3 "[]" "[]"]
  from T [THEN conjunct2, THEN conjunct1] h2
  have F: "failures (stats (snd ?S)) =
       failures (stats start_state) +
       int (length (filter isl (run_outcomes id plain_crawler escalating_world ''darolutamide'' 50
          None)))"
    by blast
  from h1 e1 n e2 e3 F show ?thesis
    by blast
qed

end
